theory Spec2Isabelle
  imports Main "HOL-Library.Sublist" "HOL-Library.Multiset"
begin

section \<open>Shared JavaScript primitives\<close>

text \<open>
  A thrown JavaScript \<open>Error\<close> is a value carrying its message. Every function of the
  source that can throw returns \<open>error + 'a\<close>, with \<open>Inl\<close> for the throw.
\<close>

datatype error = Error string

fun message :: "error \<Rightarrow> string" where
  "message (Error m) = m"

text \<open>
  Strings are lists of code units below 256, each standing for the character of that
  code point. \<open>String.prototype.trim\<close> strips white space and line terminators; below
  256 these are the tab, line feed, vertical tab, form feed, carriage return, space and
  the no-break space U+00A0.
\<close>

definition isSpace :: "char \<Rightarrow> bool" where
  "isSpace c =
     (c \<in> set [CHR '' '', CHR 0x09, CHR 0x0A, CHR 0x0B, CHR 0x0C, CHR 0x0D, CHR 0xA0])"

definition trim :: "string \<Rightarrow> string" where
  "trim s = rev (dropWhile isSpace (rev (dropWhile isSpace s)))"

text \<open>
  \<open>String.prototype.split\<close> with a one-character separator: the pieces between the
  separators, never an empty array. \<open>cur\<close> holds the current piece, reversed.
\<close>

fun splitFrom :: "char \<Rightarrow> string \<Rightarrow> string \<Rightarrow> string list" where
  "splitFrom c cur [] = [rev cur]"
| "splitFrom c cur (x # xs) =
     (if x = c then rev cur # splitFrom c [] xs else splitFrom c (x # cur) xs)"

definition split :: "char \<Rightarrow> string \<Rightarrow> string list" where
  "split c s = splitFrom c [] s"

text \<open>
  Time values are milliseconds since the epoch, as in \<open>Date\<close>; \<open>None\<close> is the time value
  \<open>NaN\<close> of an Invalid Date. \<open>TimeClip\<close> is the range check every \<open>Date\<close> constructor and
  setter ends with.
\<close>

definition msPerDay :: int where "msPerDay = 86400000"
definition msPerHour :: int where "msPerHour = 3600000"
definition msPerMinute :: int where "msPerMinute = 60000"

definition TimeClip :: "int \<Rightarrow> int option" where
  "TimeClip t = (if \<bar>t\<bar> \<le> 8640000000000000 then Some t else None)"

text \<open>
  The time zone of the host, as \<open>Date\<close> consults it: \<open>offsetAt t\<close> is the offset of local
  time from UTC (milliseconds, local = UTC + offset) in force at the instant \<open>t\<close>, and
  \<open>offsetOfLocal u\<close> the offset used to read the local time value \<open>u\<close> as an instant.
  Around a daylight-saving transition a local time is repeated or skipped; the language
  reads such a local time with the offset before the transition.
\<close>

record zone =
  offsetAt :: "int \<Rightarrow> int"
  offsetOfLocal :: "int \<Rightarrow> int"

text \<open>
  \<open>LocalTime\<close> and \<open>UTC\<close>; \<open>localDay\<close> is the calendar day of an instant (days since
  the epoch, local time) and \<open>msOfDay\<close> its clock time within that day.
\<close>

definition LocalTime :: "zone \<Rightarrow> int \<Rightarrow> int" where
  "LocalTime z t = t + offsetAt z t"

definition UTC :: "zone \<Rightarrow> int \<Rightarrow> int" where
  "UTC z u = u - offsetOfLocal z u"

definition localDay :: "zone \<Rightarrow> int \<Rightarrow> int" where
  "localDay z t = LocalTime z t div msPerDay"

definition msOfDay :: "zone \<Rightarrow> int \<Rightarrow> int" where
  "msOfDay z t = LocalTime z t mod msPerDay"

text \<open>
  \<open>Date\<close> computes in double-precision numbers. On integers below \<open>2 ^ 53\<close> in
  magnitude that arithmetic is exact; \<open>exactFields\<close> says that every intermediate value
  of the constructor for the given day, hour and minute is such an integer.
\<close>

definition exactFields :: "int \<Rightarrow> int \<Rightarrow> int \<Rightarrow> bool" where
  "exactFields day h m =
     (\<bar>h * msPerHour\<bar> < 2 ^ 53 \<and> \<bar>m * msPerMinute\<bar> < 2 ^ 53
      \<and> \<bar>h * msPerHour + m * msPerMinute\<bar> < 2 ^ 53
      \<and> \<bar>day * msPerDay\<bar> < 2 ^ 53
      \<and> \<bar>day * msPerDay + (h * msPerHour + m * msPerMinute)\<bar> < 2 ^ 53)"

text \<open>
  The constructor reads a year from 0 to 99 as 1900 to 1999. \<open>twoDigitYear\<close> says that
  a calendar day lies in those years: day \<open>-719528\<close> is the first of January of the
  year 0 and day \<open>-683003\<close> that of the year 100.
\<close>

definition twoDigitYear :: "int \<Rightarrow> bool" where
  "twoDigitYear day = (- 719528 \<le> day \<and> day < - 683003)"

text \<open>
  \<open>new Date(now.getFullYear(), now.getMonth(), now.getDate(), hour, minute, 0)\<close>:
  the constructor adds the hour and minute fields linearly to the start of the local day
  of \<open>now\<close> (MakeTime, MakeDate), reads the sum as a local time (\<open>UTC\<close>) and clips. A
  field that is \<open>NaN\<close>, \<open>undefined\<close> or infinite gives an Invalid Date. Where the
  double arithmetic is not exact, or the year of \<open>now\<close> is one the constructor moves,
  the result is the one the host computes, \<open>host\<close>.
\<close>

definition newDate ::
  "zone \<Rightarrow> (int \<Rightarrow> int \<Rightarrow> int \<Rightarrow> int option) \<Rightarrow> int \<Rightarrow> int option \<Rightarrow> int option \<Rightarrow> int option" where
  "newDate z host now hour minute =
     (case hour of None \<Rightarrow> None
      | Some h \<Rightarrow>
          (case minute of None \<Rightarrow> None
           | Some m \<Rightarrow>
               (let day = localDay z now
                in if exactFields day h m \<and> \<not> twoDigitYear day
                   then TimeClip (UTC z (day * msPerDay + h * msPerHour + m * msPerMinute))
                   else host day h m)))"

text \<open>
  \<open>d.setDate(d.getDate() + 1)\<close>: the local time of \<open>d\<close> moved to the same clock time of
  the next calendar day, read back as an instant and clipped.
\<close>

definition setDateNext :: "zone \<Rightarrow> int option \<Rightarrow> int option" where
  "setDateNext z d =
     (case d of None \<Rightarrow> None | Some t \<Rightarrow> TimeClip (UTC z (LocalTime z t + msPerDay)))"

text \<open>\<open>a < b\<close> on two dates compares their time values; with \<open>NaN\<close> it is false.\<close>

definition dateLess :: "int option \<Rightarrow> int option \<Rightarrow> bool" where
  "dateLess a b = (case a of None \<Rightarrow> False
                   | Some x \<Rightarrow> (case b of None \<Rightarrow> False | Some y \<Rightarrow> x < y))"

text \<open>
  \<open>toISOString\<close> throws a \<open>RangeError\<close> on an Invalid Date. The ISO string of a valid
  date determines its time value and is kept as that time value.
\<close>

definition toISOString :: "int option \<Rightarrow> error + int" where
  "toISOString d = (case d of None \<Rightarrow> Inl (Error ''Invalid time value'') | Some t \<Rightarrow> Inr t)"

section \<open>src/index.js: scraper, cache and handler\<close>

record flight =
  flightType :: string
  scheduled :: int
  flightNo :: string
  city :: string
  airline :: string
  status :: string

text \<open>
  A row matched by \<open>#FlightGrid tr[class*="FlightRow"]\<close>: whether it has the class
  \<open>ArrivalsFlightRow\<close>, and the texts of its \<open>td\<close> cells.
\<close>

record row =
  hasArrivalsClass :: bool
  cells :: "string list"

text \<open>
  What the scraper reads from outside the program: the outcome of \<open>axios.get\<close> and
  \<open>cheerio.load\<close> with the row selector (\<open>Inl\<close> the message of the failure), the value of
  \<open>Date.now()\<close> at the start of \<open>getCachedFlights\<close>, the value of \<open>new Date()\<close> in the
  callback of row \<open>i\<close>, the time zone of the host, what the host computes for a date
  whose double arithmetic is not exact or whose year is moved, and the builtin \<open>Number\<close> followed by the integer
  conversion of the \<open>Date\<close> constructor (\<open>None\<close> for \<open>NaN\<close> and the infinities).
\<close>

record env =
  fetched :: "string + row list"
  dateNow :: int
  clock :: "nat \<Rightarrow> int"
  hostZone :: zone
  hostDate :: "int \<Rightarrow> int \<Rightarrow> int \<Rightarrow> int option"
  toNumber :: "string \<Rightarrow> int option"

definition CACHE_LIFETIME :: int where
  "CACHE_LIFETIME = 15 * 60 * 1000"

text \<open>Lines 54 to 62: the timestamp of a row from its time text.\<close>

definition scheduledDate :: "env \<Rightarrow> nat \<Rightarrow> string \<Rightarrow> int option" where
  "scheduledDate e i scheduledTime =
     (let now = clock e i;
          parts = map (toNumber e) (split CHR '':'' scheduledTime);
          hour = hd parts;
          minute = (if 2 \<le> length parts then parts ! 1 else None);
          d = newDate (hostZone e) (hostDate e) now hour minute
      in if dateLess d (Some now) then setDateNext (hostZone e) d else d)"

text \<open>The body of the per-row \<open>try\<close> (lines 44 to 71), for a row of six cells.\<close>

definition rowFlight :: "env \<Rightarrow> nat \<Rightarrow> row \<Rightarrow> error + flight" where
  "rowFlight e i r =
     (let ftype = (if hasArrivalsClass r then ''Arrival'' else ''Departure'');
          scheduledTime = trim (cells r ! 0)
      in case toISOString (scheduledDate e i scheduledTime) of
           Inl err \<Rightarrow> Inl err
         | Inr stamp \<Rightarrow>
             Inr \<lparr>flightType = ftype, scheduled = stamp,
                  flightNo = trim (cells r ! 1), city = trim (cells r ! 2),
                  airline = trim (cells r ! 3), status = trim (cells r ! 5)\<rparr>)"

text \<open>
  \<open>flightRows.each\<close>: rows without exactly six cells are passed over, a throw in the
  row body is caught and the row is dropped, otherwise the record is pushed.
\<close>

fun eachRow :: "env \<Rightarrow> nat \<Rightarrow> row list \<Rightarrow> flight list \<Rightarrow> flight list" where
  "eachRow e i [] flights = flights"
| "eachRow e i (r # rs) flights =
     eachRow e (Suc i) rs
       (if length (cells r) = 6
        then (case rowFlight e i r of Inr f \<Rightarrow> flights @ [f] | Inl rowError \<Rightarrow> flights)
        else flights)"

definition scrapeFlights :: "env \<Rightarrow> error + flight list" where
  "scrapeFlights e =
     (case fetched e of
        Inl msg \<Rightarrow> Inl (Error (''Failed to access or parse the source website: '' @ msg))
      | Inr flightRows \<Rightarrow>
          if length flightRows = 0 then Inr [] else Inr (eachRow e 0 flightRows []))"

record flightCache =
  data :: "flight list"
  lastFetched :: int
  isStale :: bool

definition initialCache :: flightCache where
  "initialCache = \<lparr>data = [], lastFetched = 0, isStale = True\<rparr>"

text \<open>
  \<open>getCachedFlights\<close> returns the cache as it leaves it (a throw leaves it too) and
  either the error thrown or the copy returned.
\<close>

definition getCachedFlights :: "env \<Rightarrow> bool \<Rightarrow> flightCache \<Rightarrow> flightCache \<times> (error + flightCache)" where
  "getCachedFlights e forceRefresh c =
     (let now = dateNow e;
          cacheExpired = (now - lastFetched c > CACHE_LIFETIME)
      in if forceRefresh \<or> cacheExpired \<or> isStale c
         then (case scrapeFlights e of
                 Inr flights \<Rightarrow>
                   (let c' = c\<lparr>data := flights, lastFetched := now, isStale := False\<rparr>
                    in (c', Inr c'))
               | Inl err \<Rightarrow>
                   if length (data c) > 0 \<and> \<not> forceRefresh
                   then (let c' = c\<lparr>isStale := True\<rparr> in (c', Inr c'))
                   else (c, Inl err))
         else (c, Inr c))"

text \<open>A refresh is attempted exactly when the guard of line 94 holds.\<close>

definition refreshAttempted :: "env \<Rightarrow> bool \<Rightarrow> flightCache \<Rightarrow> bool" where
  "refreshAttempted e forceRefresh c =
     (forceRefresh \<or> dateNow e - lastFetched c > CACHE_LIFETIME \<or> isStale c)"

text \<open>
  A request as the handler reads it: the method, and the path name that
  \<open>new URL(req.url, ...)\<close> gives (\<open>None\<close> when the constructor throws). A response is the
  status and the object serialised into the body.
\<close>

record request =
  method_r :: string
  pathname :: "string option"

record 'b response =
  statusCode :: nat
  payload :: 'b

datatype body =
    NoBody
  | RefreshBody bool string int
  | FlightsBody "flight list" string int string
  | ErrorBody string string "string option"

text \<open>The global catch handler (lines 189 to 197).\<close>

definition internalError :: "error \<Rightarrow> body response" where
  "internalError err =
     \<lparr>statusCode = 500,
      payload = ErrorBody ''Internal Server Error''
                  ''A critical error occurred while processing the request.''
                  (Some (message err))\<rparr>"

text \<open>
  \<open>Array.prototype.sort\<close> with the comparator \<open>new Date(a.scheduled) - new Date(b.scheduled)\<close>:
  every cached \<open>scheduled\<close> is the ISO string of a valid date, the comparator is the
  difference of the time values, and the sort is stable, so the result is the stable
  sort by time value.
\<close>

definition sortByScheduled :: "flight list \<Rightarrow> flight list" where
  "sortByScheduled fs = sort_key scheduled fs"

text \<open>The branch of \<open>POST /api/flights/refresh\<close> (lines 140 to 150).\<close>

definition refreshRoute :: "env \<Rightarrow> flightCache \<Rightarrow> flightCache \<times> body response" where
  "refreshRoute e c =
     (case getCachedFlights e True c of
        (c', Inl err) \<Rightarrow> (c', internalError err)
      | (c', Inr cacheResult) \<Rightarrow>
          (case toISOString (TimeClip (lastFetched c')) of
             Inl err \<Rightarrow> (c', internalError err)
           | Inr stamp \<Rightarrow>
               (c', \<lparr>statusCode = 200,
                     payload = RefreshBody True ''Flight data refresh attempted.'' stamp\<rparr>)))"

text \<open>The branch of the GET reads (lines 152 to 184).\<close>

definition flightsRoute :: "env \<Rightarrow> string \<Rightarrow> flightCache \<Rightarrow> flightCache \<times> body response" where
  "flightsRoute e path c =
     (case getCachedFlights e False c of
        (c', Inl err) \<Rightarrow> (c', internalError err)
      | (c', Inr cacheResult) \<Rightarrow>
          (let allFlights = data cacheResult;
               lastFetchedTime = lastFetched cacheResult;
               filteredFlights =
                 (if suffix ''/arrivals'' path
                  then filter (\<lambda>f. flightType f = ''Arrival'') allFlights
                  else if suffix ''/departures'' path
                  then filter (\<lambda>f. flightType f = ''Departure'') allFlights
                  else allFlights);
               type = (if suffix ''/arrivals'' path then ''arrivals''
                       else if suffix ''/departures'' path then ''departures''
                       else ''all'');
               sorted = sortByScheduled filteredFlights
           in case toISOString (TimeClip lastFetchedTime) of
                Inl err \<Rightarrow> (c', internalError err)
              | Inr stamp \<Rightarrow>
                  (c', \<lparr>statusCode = 200,
                        payload = FlightsBody sorted type stamp
                                    (if isStale cacheResult then ''Stale'' else ''Fresh'')\<rparr>)))"

definition handler :: "env \<Rightarrow> request \<Rightarrow> flightCache \<Rightarrow> flightCache \<times> body response" where
  "handler e req c =
     (if method_r req = ''OPTIONS'' then (c, \<lparr>statusCode = 204, payload = NoBody\<rparr>)
      else case pathname req of
        None \<Rightarrow> (c, internalError (Error ''Invalid URL''))
      | Some path \<Rightarrow>
          if method_r req = ''POST'' \<and> path = ''/api/flights/refresh''
          then refreshRoute e c
          else if method_r req = ''GET'' \<and> prefix ''/api/flights'' path
          then flightsRoute e path c
          else (c, \<lparr>statusCode = 404,
                    payload = ErrorBody ''Not Found'' ''Endpoint not supported.'' None\<rparr>))"

section \<open>src/flights.js: keyword classification\<close>

text \<open>
  \<open>String.prototype.toLowerCase\<close> on code units below 256 (the letters A to Z, and
  U+00C0 to U+00DE without the multiplication sign U+00D7, move up by 32), \<open>includes\<close>
  as a contiguous sublist.
\<close>

definition toLowerChar :: "char \<Rightarrow> char" where
  "toLowerChar c =
     (if ((65::nat) \<le> of_char c \<and> of_char c \<le> (90::nat))
         \<or> ((192::nat) \<le> of_char c \<and> of_char c \<le> (222::nat) \<and> of_char c \<noteq> (215::nat))
      then char_of (of_char c + (32::nat)) else c)"

definition toLowerCase :: "string \<Rightarrow> string" where
  "toLowerCase s = map toLowerChar s"

definition includes_str :: "string \<Rightarrow> string \<Rightarrow> bool" where
  "includes_str s kw = sublist kw s"

record flight_f =
  scheduled_f :: string
  city_f :: string
  flightNo_f :: string
  airline_f :: string
  status_f :: string

record flightDataCache =
  flights :: "flight_f list"
  lastFetched_f :: "int option"
  status_c :: string

definition initialCache_f :: flightDataCache where
  "initialCache_f = \<lparr>flights = [], lastFetched_f = None, status_c = ''stale''\<rparr>"

text \<open>
  The outside of \<open>src/flights.js\<close>: the outcome of \<open>axios.get\<close> and \<open>cheerio.load\<close> with
  the selector \<open>.table-flight-info tbody tr\<close> (each row the texts of its cells), the
  \<open>new Date()\<close> of the cache update and the \<open>Date.now()\<close> of the handler.
\<close>

record env_f =
  fetched_f :: "string + string list list"
  updatedAt_f :: int
  dateNow_f :: int

definition MAX_CACHE_AGE_MS :: int where
  "MAX_CACHE_AGE_MS = 15 * 60 * 1000"

fun eachRow_f :: "string list list \<Rightarrow> flight_f list \<Rightarrow> flight_f list" where
  "eachRow_f [] acc = acc"
| "eachRow_f (columns # rest) acc =
     eachRow_f rest
       (if 5 \<le> length columns
        then (let sched = trim (columns ! 0); cty = trim (columns ! 1);
                  fno = trim (columns ! 2); airl = trim (columns ! 3);
                  stat = trim (columns ! 4)
              in if sched \<noteq> [] \<and> fno \<noteq> [] \<and> stat \<noteq> []
                 then acc @ [\<lparr>scheduled_f = sched, city_f = cty, flightNo_f = fno,
                              airline_f = airl, status_f = stat\<rparr>]
                 else acc)
        else acc)"

definition scrapeFlightData :: "env_f \<Rightarrow> flightDataCache \<Rightarrow> flightDataCache \<times> flight_f list" where
  "scrapeFlightData e c0 =
     (let c = c0\<lparr>status_c := ''fetching''\<rparr>
      in case fetched_f e of
           Inr tableRows \<Rightarrow>
             (let fl = eachRow_f tableRows []
              in (c\<lparr>flights := fl, lastFetched_f := Some (updatedAt_f e), status_c := ''ready''\<rparr>, fl))
         | Inl msg \<Rightarrow> (c\<lparr>status_c := ''stale''\<rparr>, flights c))"

definition isArrival_f :: "flight_f \<Rightarrow> bool" where
  "isArrival_f f =
     (includes_str (toLowerCase (status_f f)) ''arrival'' \<or> includes_str (toLowerCase (status_f f)) ''landed'')"

definition isDeparture_f :: "flight_f \<Rightarrow> bool" where
  "isDeparture_f f =
     (includes_str (toLowerCase (status_f f)) ''departure'' \<or> includes_str (toLowerCase (status_f f)) ''scheduled'')"

record request_f =
  method_f :: string
  url_f :: string

datatype body_f =
    NoBody_f
  | RefreshBody_f string "int option"
  | FlightsBody_f "flight_f list" "int option" string string

definition applyFilter_f :: "string \<Rightarrow> flight_f list \<Rightarrow> flight_f list" where
  "applyFilter_f filterType fl =
     (if filterType = ''arrivals'' then filter isArrival_f fl
      else if filterType = ''departures'' then filter isDeparture_f fl
      else fl)"

definition handler_f :: "env_f \<Rightarrow> request_f \<Rightarrow> flightDataCache \<Rightarrow> flightDataCache \<times> body_f response" where
  "handler_f e req c =
     (if method_f req = ''OPTIONS'' then (c, \<lparr>statusCode = 204, payload = NoBody_f\<rparr>)
      else if suffix ''/refresh'' (url_f req) \<and> method_f req = ''POST''
      then (let c' = fst (scrapeFlightData e c)
            in (c', \<lparr>statusCode = 200,
                     payload = RefreshBody_f ''Refresh requested and data scrape initiated/completed.''
                                 (lastFetched_f c')\<rparr>))
      else
        (let filterType = toLowerCase (last (split CHR ''/'' (url_f req)));
             flightType = (if filterType = ''arrivals'' then ''Arrivals''
                           else if filterType = ''departures'' then ''Departures'' else ''all'');
             filteredFlights = applyFilter_f filterType (flights c);
             lastFetchedTime = (case lastFetched_f c of None \<Rightarrow> 0 | Some t \<Rightarrow> t);
             isCacheExpired = (dateNow_f e - lastFetchedTime > MAX_CACHE_AGE_MS)
         in if isCacheExpired \<or> status_c c \<noteq> ''ready''
            then (let c' = fst (scrapeFlightData e c);
                      filtered' = (if status_c c' = ''ready''
                                   then applyFilter_f filterType (flights c')
                                   else filteredFlights)
                  in (c', \<lparr>statusCode = 200,
                           payload = FlightsBody_f filtered' (lastFetched_f c') flightType ''Erbil Airport''\<rparr>))
            else (c, \<lparr>statusCode = 200,
                      payload = FlightsBody_f filteredFlights (lastFetched_f c) flightType ''Erbil Airport''\<rparr>)))"

section \<open>src/unnamed/part\_000: the server with a scheduled fetcher\<close>

record flight_p =
  id_p :: string
  type_p :: string
  airline_p :: string
  flightNo_p :: string
  city_p :: string
  scheduled_p :: string
  status_p :: string
  lastUpdated_p :: int

text \<open>
  Each evaluation of \<open>Date.now()\<close> or \<open>new Date()\<close> during one fetch has its own reading,
  named by the place that asks: the id and the \<open>lastUpdated\<close> of row \<open>i\<close> of a table,
  \<open>lastFetched\<close>, and sample record \<open>k\<close>.
\<close>

datatype site = IdOf string nat | UpdatedOf string nat | FetchedAt | SampleAt nat

text \<open>
  The outside of one fetch: the outcome of \<open>axios.get\<close> and \<open>cheerio.load\<close> with the two
  selectors (the rows of \<open>#arrival_table_id\<close> and of \<open>#departure_table_id\<close>, each row the
  texts of its cells), and the clock readings.
\<close>

record env_p =
  fetched_p :: "string + (string list list \<times> string list list)"
  reading :: "site \<Rightarrow> int"

record server =
  flightData :: "flight_p list"
  lastFetched_p :: "int option"
  isFetching :: bool

definition initialServer :: server where
  "initialServer = \<lparr>flightData = [], lastFetched_p = None, isFetching = False\<rparr>"

text \<open>The decimal text of a number in a template literal.\<close>

definition digitChar :: "nat \<Rightarrow> char" where
  "digitChar n = ''0123456789'' ! n"

fun showNat :: "nat \<Rightarrow> string" where
  "showNat n = (if n < 10 then [digitChar n] else showNat (n div 10) @ [digitChar (n mod 10)])"

definition showInt :: "int \<Rightarrow> string" where
  "showInt k = (if k < 0 then CHR ''-'' # showNat (nat (- k)) else showNat (nat k))"

text \<open>\<open>a || b\<close> on strings: the empty string is falsy.\<close>

definition orElse :: "string \<Rightarrow> string \<Rightarrow> string" where
  "orElse a b = (if a = [] then b else a)"

definition parseFlightRow :: "env_p \<Rightarrow> nat \<Rightarrow> string list \<Rightarrow> string \<Rightarrow> flight_p option" where
  "parseFlightRow e i tds type =
     (if length tds < 5 then None
      else (let airl = trim (tds ! 0); fno = trim (tds ! 1); cty = trim (tds ! 2);
                sched = trim (tds ! 3); stat = trim (tds ! 4)
            in Some \<lparr>id_p = fno @ ''-'' @ sched @ ''-'' @ showInt (reading e (IdOf type i)),
                     type_p = type,
                     airline_p = orElse airl ''N/A'',
                     flightNo_p = orElse fno ''N/A'',
                     city_p = orElse cty ''N/A'',
                     scheduled_p = orElse sched ''N/A'',
                     status_p = orElse stat ''Scheduled'',
                     lastUpdated_p = reading e (UpdatedOf type i)\<rparr>))"

fun eachRow_p :: "env_p \<Rightarrow> string \<Rightarrow> nat \<Rightarrow> string list list \<Rightarrow> flight_p list \<Rightarrow> flight_p list" where
  "eachRow_p e type i [] newFlights = newFlights"
| "eachRow_p e type i (el # els) newFlights =
     eachRow_p e type (Suc i) els
       (case parseFlightRow e i el type of
          Some fl \<Rightarrow> newFlights @ [fl]
        | None \<Rightarrow> newFlights)"

definition getSampleData :: "env_p \<Rightarrow> flight_p list" where
  "getSampleData e =
     [\<lparr>id_p = ''IA220-1000'', type_p = ''Arrival'', airline_p = ''Iraqi Airways'',
       flightNo_p = ''IA220'', city_p = ''Baghdad'', scheduled_p = ''10:00'',
       status_p = ''Landed'', lastUpdated_p = reading e (SampleAt 0)\<rparr>,
      \<lparr>id_p = ''QR441-1130'', type_p = ''Arrival'', airline_p = ''Qatar Airways'',
       flightNo_p = ''QR441'', city_p = ''Doha'', scheduled_p = ''11:30'',
       status_p = ''Delayed'', lastUpdated_p = reading e (SampleAt 1)\<rparr>,
      \<lparr>id_p = ''TK316-1415'', type_p = ''Departure'', airline_p = ''Turkish Airlines'',
       flightNo_p = ''TK316'', city_p = ''Istanbul'', scheduled_p = ''14:15'',
       status_p = ''Boarding'', lastUpdated_p = reading e (SampleAt 2)\<rparr>,
      \<lparr>id_p = ''FZ206-1600'', type_p = ''Departure'', airline_p = ''FlyDubai'',
       flightNo_p = ''FZ206'', city_p = ''Dubai'', scheduled_p = ''16:00'',
       status_p = ''Scheduled'', lastUpdated_p = reading e (SampleAt 3)\<rparr>]"

text \<open>
  \<open>fetchFlights\<close> runs in two segments, each atomic on the single JavaScript thread:
  up to the \<open>await\<close> of \<open>axios.get\<close>, and from the settling of that request to the end of
  \<open>finally\<close>. \<open>fetchFlights_begin\<close> says whether a request was issued.
\<close>

definition fetchFlights_begin :: "server \<Rightarrow> server \<times> bool" where
  "fetchFlights_begin s = (if isFetching s then (s, False) else (s\<lparr>isFetching := True\<rparr>, True))"

definition scrapeTables :: "env_p \<Rightarrow> string list list \<times> string list list \<Rightarrow> flight_p list" where
  "scrapeTables e doc =
     (let arrivalTableRows = fst doc;
          newFlights = (if length arrivalTableRows > 0
                        then eachRow_p e ''Arrival'' 0 arrivalTableRows [] else []);
          departureTableRows = snd doc
      in if length departureTableRows > 0
         then eachRow_p e ''Departure'' 0 departureTableRows newFlights else newFlights)"

definition fetchFlights_resume :: "env_p \<Rightarrow> server \<Rightarrow> server" where
  "fetchFlights_resume e s =
     (let s' =
        (case fetched_p e of
           Inr doc \<Rightarrow>
             (let newFlights = scrapeTables e doc
              in if length newFlights > 0
                 then s\<lparr>flightData := newFlights, lastFetched_p := Some (reading e FetchedAt)\<rparr>
                 else if length (flightData s) = 0
                 then s\<lparr>flightData := getSampleData e\<rparr>
                 else s)
         | Inl msg \<Rightarrow>
             if length (flightData s) = 0 then s\<lparr>flightData := getSampleData e\<rparr> else s)
      in s'\<lparr>isFetching := False\<rparr>)"

text \<open>A call of \<open>fetchFlights\<close> that nothing interleaves with.\<close>

definition fetchFlights :: "env_p \<Rightarrow> server \<Rightarrow> server" where
  "fetchFlights e s =
     (case fetchFlights_begin s of
        (s', True) \<Rightarrow> fetchFlights_resume e s'
      | (s', False) \<Rightarrow> s')"






text \<open>
  The event loop: \<open>fetchFlights\<close> is invoked (at start-up, by the cron job or by the
  refresh route), a pending request settles, or a read route is served. \<open>pending\<close> counts
  the requests in flight and \<open>started\<close> every request ever issued.
\<close>

datatype event = Invoke | Settle env_p | ReadAll | ReadArrivals | ReadDepartures

record sys =
  srv :: server
  pending :: nat
  started :: nat

definition initialSys :: sys where
  "initialSys = \<lparr>srv = initialServer, pending = 0, started = 0\<rparr>"

fun step :: "sys \<Rightarrow> event \<Rightarrow> sys" where
  "step s Invoke =
     (case fetchFlights_begin (srv s) of
        (v, True) \<Rightarrow> s\<lparr>srv := v, pending := pending s + 1, started := started s + 1\<rparr>
      | (v, False) \<Rightarrow> s\<lparr>srv := v\<rparr>)"
| "step s (Settle e) =
     (if pending s = 0 then s
      else s\<lparr>srv := fetchFlights_resume e (srv s), pending := pending s - 1\<rparr>)"
| "step s ReadAll = s"
| "step s ReadArrivals = s"
| "step s ReadDepartures = s"

definition run :: "sys \<Rightarrow> event list \<Rightarrow> sys" where
  "run s evs = foldl step s evs"

section \<open>src/index.js: the cache as objects in a store\<close>

text \<open>
  For the aliasing of the cache and the snapshots \<open>getCachedFlights\<close> returns, objects
  live in a store: a list of objects, the address of an object being its index. A flight
  record holds its fields, an array holds the addresses of its elements, the cache
  object holds the address of its \<open>data\<close> array and its two scalar fields. Creating an
  object appends it to the store; nothing is freed.
\<close>

datatype obj = FlightObj flight | ArrayObj "nat list" | CacheObj nat int bool

type_synonym store = "obj list"

text \<open>Reading an address, and reading the value a flight, an array or a cache object stands for.\<close>

definition objAt :: "store \<Rightarrow> nat \<Rightarrow> obj option" where
  "objAt h a = (if a < length h then Some (h ! a) else None)"

definition flightAt :: "store \<Rightarrow> nat \<Rightarrow> flight option" where
  "flightAt h a = (case objAt h a of Some (FlightObj f) \<Rightarrow> Some f | _ \<Rightarrow> None)"

definition arrayAt :: "store \<Rightarrow> nat \<Rightarrow> flight list option" where
  "arrayAt h a = (case objAt h a of Some (ArrayObj rs) \<Rightarrow> those (map (flightAt h) rs) | _ \<Rightarrow> None)"

definition cacheAt :: "store \<Rightarrow> nat \<Rightarrow> flightCache option" where
  "cacheAt h a =
     (case objAt h a of
        Some (CacheObj d lf st) \<Rightarrow>
          (case arrayAt h d of
             Some fs \<Rightarrow> Some \<lparr>data = fs, lastFetched = lf, isStale = st\<rparr>
           | None \<Rightarrow> None)
      | _ \<Rightarrow> None)"

text \<open>The addresses a cache object is made of: itself, its array and the records of the array.\<close>

definition footprint :: "store \<Rightarrow> nat \<Rightarrow> nat set" where
  "footprint h a =
     (case objAt h a of
        Some (CacheObj d lf st) \<Rightarrow>
          insert a (insert d (case objAt h d of Some (ArrayObj rs) \<Rightarrow> set rs | _ \<Rightarrow> {}))
      | _ \<Rightarrow> {a})"

text \<open>A new array filled with new record objects, as the scraper and the JSON parser build one.\<close>

definition allocArray :: "flight list \<Rightarrow> store \<Rightarrow> nat \<times> store" where
  "allocArray fs h =
     (length h + length fs,
      h @ map FlightObj fs @ [ArrayObj [length h..<length h + length fs]])"

text \<open>
  \<open>JSON.parse(JSON.stringify(flightCache))\<close>: the value of the cache is written out and
  parsed into new objects; the address of the new cache-shaped object is returned.
\<close>

definition deepCopy :: "nat \<Rightarrow> store \<Rightarrow> store \<times> (error + nat)" where
  "deepCopy root h =
     (case cacheAt h root of
        Some c \<Rightarrow>
          (let (a, h1) = allocArray (data c) h
           in (h1 @ [CacheObj a (lastFetched c) (isStale c)], Inr (length h1)))
      | None \<Rightarrow> (h, Inl (Error ''not a cache object'')))"

text \<open>
  \<open>getCachedFlights\<close> on the store. \<open>root\<close> is the address bound to the variable
  \<open>flightCache\<close>; assignments to its fields replace the object at that address. The
  branches for an address that holds no cache object or no array answer a store the
  program never builds.
\<close>

definition getCachedFlights_h :: "env \<Rightarrow> bool \<Rightarrow> nat \<Rightarrow> store \<Rightarrow> store \<times> (error + nat)" where
  "getCachedFlights_h e forceRefresh root h =
     (case objAt h root of
        Some (CacheObj d lf st) \<Rightarrow>
          (let now = dateNow e;
               cacheExpired = (now - lf > CACHE_LIFETIME)
           in if forceRefresh \<or> cacheExpired \<or> st
              then (case scrapeFlights e of
                      Inr fl \<Rightarrow>
                        (let (a, h1) = allocArray fl h
                         in deepCopy root (h1[root := CacheObj a now False]))
                    | Inl err \<Rightarrow>
                        (case objAt h d of
                           Some (ArrayObj rs) \<Rightarrow>
                             if length rs > 0 \<and> \<not> forceRefresh
                             then deepCopy root (h[root := CacheObj d lf True])
                             else (h, Inl err)
                         | _ \<Rightarrow> (h, Inl (Error ''not an array''))))
              else deepCopy root h)
      | _ \<Rightarrow> (h, Inl (Error ''not a cache object'')))"

text \<open>The in-place \<open>sort\<close> of the handler on the \<open>data\<close> array of the object at \<open>p\<close>.\<close>

definition sortData_h :: "nat \<Rightarrow> store \<Rightarrow> store" where
  "sortData_h p h =
     (case objAt h p of
        Some (CacheObj d lf st) \<Rightarrow>
          (case objAt h d of
             Some (ArrayObj rs) \<Rightarrow>
               h[d := ArrayObj (sort_key (\<lambda>r. case flightAt h r of Some f \<Rightarrow> scheduled f | None \<Rightarrow> 0) rs)]
           | _ \<Rightarrow> h)
      | _ \<Rightarrow> h)"

section \<open>Example inputs\<close>

text \<open>
  \<open>Number\<close> on the strings of decimal digits (the empty string is 0): the instance of
  the builtin that the examples run with.
\<close>

definition isDigit :: "char \<Rightarrow> bool" where
  "isDigit c = ((48::nat) \<le> of_char c \<and> of_char c \<le> (57::nat))"

definition decimalNumber :: "string \<Rightarrow> int option" where
  "decimalNumber s =
     (if list_all isDigit s
      then Some (foldl (\<lambda>a c. 10 * a + (int (of_char c) - 48)) 0 s)
      else None)"

text \<open>A zone three hours ahead of UTC all year.\<close>

definition zoneFixed :: zone where
  "zoneFixed = \<lparr>offsetAt = (\<lambda>t. 10800000), offsetOfLocal = (\<lambda>u. 10800000)\<rparr>"

text \<open>
  A page of four matched rows read at 2023-11-14T22:13:20Z in a zone three hours ahead
  of UTC (local time 01:13:20 on the 15th): an arrival later today, a departure whose
  time has passed, a row of five cells and a row whose time does not parse.
\<close>

definition examplePage :: "row list" where
  "examplePage =
     [\<lparr>hasArrivalsClass = True,
       cells = [''10:30'', ''IA220'', ''Baghdad'', ''Iraqi Airways'', ''T1'', ''Landed'']\<rparr>,
      \<lparr>hasArrivalsClass = False,
       cells = [''00:45'', ''TK316'', ''Istanbul'', ''Turkish Airlines'', ''T1'', ''Boarding'']\<rparr>,
      \<lparr>hasArrivalsClass = False,
       cells = [''11:00'', ''FZ206'', ''Dubai'', ''FlyDubai'', ''Scheduled'']\<rparr>,
      \<lparr>hasArrivalsClass = True,
       cells = [''soon'', ''QR441'', ''Doha'', ''Qatar Airways'', ''T1'', ''Delayed'']\<rparr>]"

definition envUp :: env where
  "envUp = \<lparr>fetched = Inr examplePage, dateNow = 1700000000000,
            clock = (\<lambda>i. 1700000000000), hostZone = zoneFixed,
            hostDate = (\<lambda>day h m. None), toNumber = decimalNumber\<rparr>"

definition envDown :: env where
  "envDown = \<lparr>fetched = Inl ''timeout of 15000ms exceeded'', dateNow = 1700000000000,
              clock = (\<lambda>i. 1700000000000), hostZone = zoneFixed,
            hostDate = (\<lambda>day h m. None), toNumber = decimalNumber\<rparr>"

definition flightA :: flight where
  "flightA = \<lparr>flightType = ''Arrival'', scheduled = 1699950000000, flightNo = ''IA220'',
              city = ''Baghdad'', airline = ''Iraqi Airways'', status = ''Landed''\<rparr>"

definition flightB :: flight where
  "flightB = \<lparr>flightType = ''Departure'', scheduled = 1699940000000, flightNo = ''TK316'',
              city = ''Istanbul'', airline = ''Turkish Airlines'', status = ''Boarding''\<rparr>"

text \<open>A cache filled an hour before \<open>envDown\<close> is read, so expired there.\<close>

definition cacheOld :: flightCache where
  "cacheOld = \<lparr>data = [flightA, flightB], lastFetched = 1699996400000, isStale = False\<rparr>"

definition postRefresh :: request where
  "postRefresh = \<lparr>method_r = ''POST'', pathname = Some ''/api/flights/refresh''\<rparr>"

definition getAll :: request where
  "getAll = \<lparr>method_r = ''GET'', pathname = Some ''/api/flights''\<rparr>"

definition getArrivalsReq :: request where
  "getArrivalsReq = \<lparr>method_r = ''GET'', pathname = Some ''/api/flights/arrivals''\<rparr>"

definition getDeparturesReq :: request where
  "getDeparturesReq = \<lparr>method_r = ''GET'', pathname = Some ''/api/flights/departures''\<rparr>"

text \<open>
  The cache of \<open>src/index.js\<close> after a sequence of requests, each served in its own
  environment.
\<close>

fun serve :: "flightCache \<Rightarrow> (env \<times> request) list \<Rightarrow> flightCache" where
  "serve c [] = c"
| "serve c (x # rest) = serve (fst (handler (fst x) (snd x) c)) rest"

text \<open>
  What row \<open>i\<close> contributes to the result: its record when it has six cells and its
  conversion does not throw, nothing otherwise.
\<close>

definition extracted :: "env \<Rightarrow> nat \<times> row \<Rightarrow> flight option" where
  "extracted e p =
     (if length (cells (snd p)) = 6
      then (case rowFlight e (fst p) (snd p) of Inr f \<Rightarrow> Some f | Inl err \<Rightarrow> None)
      else None)"

text \<open>A record classified by the class of its row.\<close>

definition typed :: "flight \<Rightarrow> bool" where
  "typed f = (flightType f = ''Arrival'' \<or> flightType f = ''Departure'')"

text \<open>
  A cache of \<open>src/flights.js\<close> that is ready and one second old, holding a delayed flight
  and a scheduled arrival, and the three reads of it.
\<close>

definition delayedFlight :: flight_f where
  "delayedFlight = \<lparr>scheduled_f = ''11:30'', city_f = ''Doha'', flightNo_f = ''QR441'',
                    airline_f = ''Qatar Airways'', status_f = ''Delayed''\<rparr>"

definition scheduledArrival :: flight_f where
  "scheduledArrival = \<lparr>scheduled_f = ''12:10'', city_f = ''Baghdad'', flightNo_f = ''IA220'',
                       airline_f = ''Iraqi Airways'', status_f = ''Scheduled Arrival''\<rparr>"

definition landedFlight :: flight_f where
  "landedFlight = \<lparr>scheduled_f = ''10:00'', city_f = ''Amman'', flightNo_f = ''RJ820'',
                   airline_f = ''Royal Jordanian'', status_f = ''Landed''\<rparr>"

definition cacheReady :: flightDataCache where
  "cacheReady = \<lparr>flights = [delayedFlight, scheduledArrival],
                 lastFetched_f = Some 1700000000000, status_c = ''ready''\<rparr>"

definition envQuiet :: env_f where
  "envQuiet = \<lparr>fetched_f = Inl ''not asked'', updatedAt_f = 1700000001000,
               dateNow_f = 1700000001000\<rparr>"

definition getAll_f :: request_f where
  "getAll_f = \<lparr>method_f = ''GET'', url_f = ''/api/flights''\<rparr>"

definition getArrivals_f :: request_f where
  "getArrivals_f = \<lparr>method_f = ''GET'', url_f = ''/api/flights/arrivals''\<rparr>"

definition getDepartures_f :: request_f where
  "getDepartures_f = \<lparr>method_f = ''GET'', url_f = ''/api/flights/departures''\<rparr>"

text \<open>
  Environments of one fetch of the server with a scheduled fetcher: the request times
  out; the page has no arrival row and one departure row of two cells; the page has one
  arrival row of five cells.
\<close>

definition envDown_p :: env_p where
  "envDown_p = \<lparr>fetched_p = Inl ''connect ETIMEDOUT'', reading = (\<lambda>x. 1700000000000)\<rparr>"


definition envUp_p :: env_p where
  "envUp_p = \<lparr>fetched_p = Inr ([[''Iraqi Airways'', ''IA220'', ''Baghdad'', ''10:00'', ''Landed'']], []),
              reading = (\<lambda>x. 1700000600000)\<rparr>"

text \<open>The server after a first fetch in \<open>envUp_p\<close>, and a server with a fetch in flight.\<close>

definition serverFilled :: server where
  "serverFilled =
     \<lparr>flightData =
        [\<lparr>id_p = ''IA220-10:00-1700000600000'', type_p = ''Arrival'',
          airline_p = ''Iraqi Airways'', flightNo_p = ''IA220'', city_p = ''Baghdad'',
          scheduled_p = ''10:00'', status_p = ''Landed'', lastUpdated_p = 1700000600000\<rparr>],
      lastFetched_p = Some 1700000600000, isFetching = False\<rparr>"

definition serverBusy :: server where
  "serverBusy = \<lparr>flightData = [], lastFetched_p = None, isFetching = True\<rparr>"

text \<open>The server once its start-up fetch has failed: sample data, never fetched.\<close>

definition sysStale :: sys where
  "sysStale = run initialSys [Invoke, Settle envDown_p]"

text \<open>The guard flag is set exactly while one request is in flight.\<close>

definition guardInv :: "sys \<Rightarrow> bool" where
  "guardInv sy = (pending sy = (if isFetching (srv sy) then 1 else 0))"

text \<open>
  A zone is steady at offset \<open>tz\<close> between two instants when that offset is in force at
  every instant between them and is used to read every local time between them.
\<close>

definition steadyZone :: "zone \<Rightarrow> int \<Rightarrow> int \<Rightarrow> int \<Rightarrow> bool" where
  "steadyZone z tz lo hi =
     ((\<forall>t. lo \<le> t \<and> t \<le> hi \<longrightarrow> offsetAt z t = tz)
      \<and> (\<forall>u. lo + tz \<le> u \<and> u \<le> hi + tz \<longrightarrow> offsetOfLocal z u = tz))"

text \<open>
  A zone two hours ahead of UTC in summer that falls back to one hour ahead at
  2023-10-29T01:00:00Z, when local clocks go from 03:00 back to 02:00. The local times
  from 02:00 to 03:00 of that day occur twice and are read with the summer offset. A
  page with one row for 02:30 is read there at 01:15:00Z, which is 02:15 local time on
  the second pass.
\<close>

definition zoneDst :: zone where
  "zoneDst = \<lparr>offsetAt = (\<lambda>t. if t < 1698541200000 then 7200000 else 3600000),
              offsetOfLocal = (\<lambda>u. if u < 1698548400000 then 7200000 else 3600000)\<rparr>"

definition rowDst :: row where
  "rowDst = \<lparr>hasArrivalsClass = True,
             cells = [''02:30'', ''LH696'', ''Frankfurt'', ''Lufthansa'', ''T1'', ''Scheduled'']\<rparr>"

definition envDst :: env where
  "envDst = \<lparr>fetched = Inr [rowDst], dateNow = 1698542100000,
             clock = (\<lambda>i. 1698542100000), hostZone = zoneDst,
             hostDate = (\<lambda>day h m. None), toNumber = decimalNumber\<rparr>"

text \<open>A store holding the cache \<open>cacheOld\<close> at address 3.\<close>

definition storeOld :: store where
  "storeOld = [FlightObj flightA, FlightObj flightB, ArrayObj [0, 1], CacheObj 2 1699996400000 False]"

section \<open>Properties of the cache of src/index.js\<close>

lemma scrapeFlights_fails_iff: "(\<exists>err. scrapeFlights e = Inl err) \<longleftrightarrow> (\<exists>msg. fetched e = Inl msg)"
  by (cases "fetched e") (simp_all add: scrapeFlights_def)

text \<open>
  C1. A refresh attempt whose fetch raises changes neither the cached records nor the time
  of the last successful fetch, whatever the cache holds and whether forced or not. When
  the cache is non-empty and the refresh is not forced, the call returns a snapshot, the
  records are the ones held before and the only change is the stale flag, set to true.
\<close>

theorem failed_refresh_keeps_records:
  assumes "scrapeFlights e = Inl err"
    and "refreshAttempted e forceRefresh c"
  shows "data (fst (getCachedFlights e forceRefresh c)) = data c
       \<and> lastFetched (fst (getCachedFlights e forceRefresh c)) = lastFetched c
       \<and> (data c \<noteq> [] \<and> \<not> forceRefresh \<longrightarrow>
            getCachedFlights e forceRefresh c = (c\<lparr>isStale := True\<rparr>, Inr (c\<lparr>isStale := True\<rparr>)))"
  using assms by (auto simp add: getCachedFlights_def refreshAttempted_def Let_def)

lemma envDown_fails:
  "scrapeFlights envDown =
     Inl (Error ''Failed to access or parse the source website: timeout of 15000ms exceeded'')"
  by (simp add: scrapeFlights_def envDown_def)

lemma envDown_attempted: "refreshAttempted envDown False cacheOld"
  by (simp add: refreshAttempted_def envDown_def cacheOld_def CACHE_LIFETIME_def)

theorem failed_refresh_keeps_records_witness:
  "scrapeFlights envDown =
     Inl (Error ''Failed to access or parse the source website: timeout of 15000ms exceeded'')
   \<and> refreshAttempted envDown False cacheOld
   \<and> data cacheOld \<noteq> []
   \<and> data (fst (getCachedFlights envDown False cacheOld)) = [flightA, flightB]
   \<and> lastFetched (fst (getCachedFlights envDown False cacheOld)) = 1699996400000
   \<and> getCachedFlights envDown False cacheOld
       = (cacheOld\<lparr>isStale := True\<rparr>, Inr (cacheOld\<lparr>isStale := True\<rparr>))"
  using failed_refresh_keeps_records [OF envDown_fails envDown_attempted] envDown_fails envDown_attempted
  by (simp add: cacheOld_def)

text \<open>
  C2. A refresh attempt whose fetch raises while the cache holds no records returns the
  error of the fetch to its caller and no snapshot, whether the refresh was forced or
  not; the cache is left as it was.
\<close>

theorem failed_refresh_empty_cache_raises:
  assumes "scrapeFlights e = Inl err"
    and "data c = []"
    and "refreshAttempted e forceRefresh c"
  shows "getCachedFlights e forceRefresh c = (c, Inl err)"
  using assms by (simp add: getCachedFlights_def refreshAttempted_def Let_def)

lemma initial_attempted: "refreshAttempted e forceRefresh initialCache"
  by (simp add: refreshAttempted_def initialCache_def)

theorem failed_refresh_empty_cache_raises_witness:
  "scrapeFlights envDown =
     Inl (Error ''Failed to access or parse the source website: timeout of 15000ms exceeded'')
   \<and> data initialCache = []
   \<and> refreshAttempted envDown True initialCache
   \<and> refreshAttempted envDown False initialCache
   \<and> getCachedFlights envDown True initialCache
       = (initialCache,
          Inl (Error ''Failed to access or parse the source website: timeout of 15000ms exceeded''))
   \<and> getCachedFlights envDown False initialCache
       = (initialCache,
          Inl (Error ''Failed to access or parse the source website: timeout of 15000ms exceeded''))"
  using failed_refresh_empty_cache_raises [OF envDown_fails _ initial_attempted, of True]
    failed_refresh_empty_cache_raises [OF envDown_fails _ initial_attempted, of False]
    envDown_fails initial_attempted
  by (simp add: initialCache_def)

section \<open>The refresh route\<close>

text \<open>
  In \<open>src/index.js\<close> a forced refresh whose fetch raises rethrows, and the handler's
  catch answers 500, for every cache.
\<close>

lemma refresh_post_fails_500:
  assumes "fetched e = Inl msg"
  shows "handler e postRefresh c =
           (c, internalError (Error (''Failed to access or parse the source website: '' @ msg)))"
  using assms
  by (simp add: handler_def refreshRoute_def postRefresh_def getCachedFlights_def scrapeFlights_def Let_def)

text \<open>The refresh branch of \<open>src/flights.js\<close> answers 200 whatever the fetch did.\<close>

lemma refresh_f_always_200:
  assumes "method_f req = ''POST''" and "suffix ''/refresh'' (url_f req)"
  shows "statusCode (snd (handler_f e req c)) = 200"
  using assms by (simp add: handler_f_def Let_def)


section \<open>The read routes of src/index.js\<close>

lemma sortByScheduled_sorted: "sorted (map scheduled (sortByScheduled fs))"
  by (simp add: sortByScheduled_def)

lemma getCachedFlights_snapshot:
  "getCachedFlights e force c = (c', Inr snap) \<Longrightarrow> snap = c'"
  by (auto simp add: getCachedFlights_def Let_def split: if_splits sum.splits)

text \<open>
  C4. Every response of the handler of \<open>src/index.js\<close> that carries a flight list (the
  GET reads of all flights, arrivals and departures) lists the records in non-decreasing
  order of \<open>scheduled\<close>. The list holds exactly the records of the cache that pass the
  filter chosen by the path, each as often as the cache holds it, with records of equal
  \<open>scheduled\<close> in the order of the cache; it is the sort of the filtered cache, the
  filter applied first and the sort second. The \<open>type\<close> of the body names the filter.
\<close>

theorem get_flights_sorted_after_filter:
  assumes "handler e req c = (c', r)"
    and "payload r = FlightsBody fs ty stamp st"
  shows "\<exists>path. pathname req = Some path
         \<and> (let kept = (if suffix ''/arrivals'' path
                         then filter (\<lambda>f. flightType f = ''Arrival'') (data c')
                         else if suffix ''/departures'' path
                         then filter (\<lambda>f. flightType f = ''Departure'') (data c')
                         else data c')
            in sorted (map scheduled fs)
             \<and> mset fs = mset kept
             \<and> (\<forall>k. filter (\<lambda>f. scheduled f = k) fs = filter (\<lambda>f. scheduled f = k) kept)
             \<and> fs = sortByScheduled kept)
         \<and> ty = (if suffix ''/arrivals'' path then ''arrivals''
                 else if suffix ''/departures'' path then ''departures'' else ''all'')"
proof -
  from assms obtain path snap where p: "pathname req = Some path"
    and g: "getCachedFlights e False c = (c', Inr snap)"
    and fs: "fs = sortByScheduled
                     (if suffix ''/arrivals'' path
                      then filter (\<lambda>f. flightType f = ''Arrival'') (data snap)
                      else if suffix ''/departures'' path
                      then filter (\<lambda>f. flightType f = ''Departure'') (data snap)
                      else data snap)"
    and ty: "ty = (if suffix ''/arrivals'' path then ''arrivals''
                 else if suffix ''/departures'' path then ''departures'' else ''all'')"
    by (auto simp add: handler_def flightsRoute_def refreshRoute_def Let_def internalError_def
        split: if_splits option.splits prod.splits sum.splits)
  from g have snap: "snap = c'" by (rule getCachedFlights_snapshot)
  have srt: "sorted (map scheduled (sortByScheduled xs))
             \<and> mset (sortByScheduled xs) = mset xs
             \<and> (\<forall>k. filter (\<lambda>f. scheduled f = k) (sortByScheduled xs)
                      = filter (\<lambda>f. scheduled f = k) xs)" for xs
    by (simp add: sortByScheduled_def sort_key_stable)
  show ?thesis
    using p ty srt unfolding fs snap Let_def by blast
qed

lemma stale_read:
  "handler envDown getAll cacheOld =
     (cacheOld\<lparr>isStale := True\<rparr>,
      \<lparr>statusCode = 200,
       payload = FlightsBody [flightB, flightA] ''all'' 1699996400000 ''Stale''\<rparr>)"
  by (simp add: handler_def flightsRoute_def getAll_def getCachedFlights_def scrapeFlights_def
      Let_def envDown_def cacheOld_def CACHE_LIFETIME_def toISOString_def TimeClip_def
      sortByScheduled_def flightA_def flightB_def suffix_to_prefix)

lemma stale_read_arrivals:
  "handler envDown getArrivalsReq cacheOld =
     (cacheOld\<lparr>isStale := True\<rparr>,
      \<lparr>statusCode = 200,
       payload = FlightsBody [flightA] ''arrivals'' 1699996400000 ''Stale''\<rparr>)"
  by (simp add: handler_def flightsRoute_def getArrivalsReq_def getCachedFlights_def
      scrapeFlights_def Let_def envDown_def cacheOld_def CACHE_LIFETIME_def toISOString_def
      TimeClip_def sortByScheduled_def flightA_def flightB_def suffix_to_prefix)

lemma stale_read_departures:
  "handler envDown getDeparturesReq cacheOld =
     (cacheOld\<lparr>isStale := True\<rparr>,
      \<lparr>statusCode = 200,
       payload = FlightsBody [flightB] ''departures'' 1699996400000 ''Stale''\<rparr>)"
  by (simp add: handler_def flightsRoute_def getDeparturesReq_def getCachedFlights_def
      scrapeFlights_def Let_def envDown_def cacheOld_def CACHE_LIFETIME_def toISOString_def
      TimeClip_def sortByScheduled_def flightA_def flightB_def suffix_to_prefix)

lemma example_suffixes:
  "\<not> suffix ''/arrivals'' ''/api/flights''" "\<not> suffix ''/departures'' ''/api/flights''"
  "suffix ''/arrivals'' ''/api/flights/arrivals''"
  "\<not> suffix ''/arrivals'' ''/api/flights/departures''"
  "suffix ''/departures'' ''/api/flights/departures''"
  by (simp_all add: suffix_to_prefix)

theorem get_flights_sorted_after_filter_witness:
  "handler envDown getAll cacheOld =
     (cacheOld\<lparr>isStale := True\<rparr>,
      \<lparr>statusCode = 200,
       payload = FlightsBody [flightB, flightA] ''all'' 1699996400000 ''Stale''\<rparr>)
   \<and> sorted (map scheduled [flightB, flightA])
   \<and> mset [flightB, flightA] = mset (data cacheOld)
   \<and> handler envDown getArrivalsReq cacheOld =
     (cacheOld\<lparr>isStale := True\<rparr>,
      \<lparr>statusCode = 200,
       payload = FlightsBody [flightA] ''arrivals'' 1699996400000 ''Stale''\<rparr>)
   \<and> mset [flightA] = mset (filter (\<lambda>f. flightType f = ''Arrival'') (data cacheOld))
   \<and> handler envDown getDeparturesReq cacheOld =
     (cacheOld\<lparr>isStale := True\<rparr>,
      \<lparr>statusCode = 200,
       payload = FlightsBody [flightB] ''departures'' 1699996400000 ''Stale''\<rparr>)
   \<and> mset [flightB] = mset (filter (\<lambda>f. flightType f = ''Departure'') (data cacheOld))"
proof -
  have stale: "data (cacheOld\<lparr>isStale := True\<rparr>) = data cacheOld" by simp
  have p: "payload \<lparr>statusCode = 200, payload = FlightsBody fs ty 1699996400000 ''Stale''\<rparr>
             = FlightsBody fs ty 1699996400000 ''Stale''" for fs ty
    by simp
  from get_flights_sorted_after_filter [OF stale_read p]
  obtain patha where paa: "pathname getAll = Some patha"
    and ka: "let kept = (if suffix ''/arrivals'' patha
                         then filter (\<lambda>f. flightType f = ''Arrival'') (data (cacheOld\<lparr>isStale := True\<rparr>))
                         else if suffix ''/departures'' patha
                         then filter (\<lambda>f. flightType f = ''Departure'') (data (cacheOld\<lparr>isStale := True\<rparr>))
                         else data (cacheOld\<lparr>isStale := True\<rparr>))
            in sorted (map scheduled [flightB, flightA])
             \<and> mset [flightB, flightA] = mset kept
             \<and> (\<forall>k. filter (\<lambda>f. scheduled f = k) [flightB, flightA] = filter (\<lambda>f. scheduled f = k) kept)
             \<and> [flightB, flightA] = sortByScheduled kept"
    by blast
  from paa have ptha: "patha = ''/api/flights''" by (simp add: getAll_def)
  have kepta: "(if suffix ''/arrivals'' patha
                         then filter (\<lambda>f. flightType f = ''Arrival'') (data (cacheOld\<lparr>isStale := True\<rparr>))
                         else if suffix ''/departures'' patha
                         then filter (\<lambda>f. flightType f = ''Departure'') (data (cacheOld\<lparr>isStale := True\<rparr>))
                         else data (cacheOld\<lparr>isStale := True\<rparr>)) = data cacheOld"
    unfolding ptha by (simp add: example_suffixes)
  from ka [unfolded Let_def kepta]
  have a: "sorted (map scheduled [flightB, flightA])" "mset [flightB, flightA] = mset (data cacheOld)"
    by blast+
  from get_flights_sorted_after_filter [OF stale_read_arrivals p]
  obtain pathb where pab: "pathname getArrivalsReq = Some pathb"
    and kb: "let kept = (if suffix ''/arrivals'' pathb
                         then filter (\<lambda>f. flightType f = ''Arrival'') (data (cacheOld\<lparr>isStale := True\<rparr>))
                         else if suffix ''/departures'' pathb
                         then filter (\<lambda>f. flightType f = ''Departure'') (data (cacheOld\<lparr>isStale := True\<rparr>))
                         else data (cacheOld\<lparr>isStale := True\<rparr>))
            in sorted (map scheduled [flightA])
             \<and> mset [flightA] = mset kept
             \<and> (\<forall>k. filter (\<lambda>f. scheduled f = k) [flightA] = filter (\<lambda>f. scheduled f = k) kept)
             \<and> [flightA] = sortByScheduled kept"
    by blast
  from pab have pthb: "pathb = ''/api/flights/arrivals''" by (simp add: getArrivalsReq_def)
  have keptb: "(if suffix ''/arrivals'' pathb
                         then filter (\<lambda>f. flightType f = ''Arrival'') (data (cacheOld\<lparr>isStale := True\<rparr>))
                         else if suffix ''/departures'' pathb
                         then filter (\<lambda>f. flightType f = ''Departure'') (data (cacheOld\<lparr>isStale := True\<rparr>))
                         else data (cacheOld\<lparr>isStale := True\<rparr>)) = filter (\<lambda>f. flightType f = ''Arrival'') (data cacheOld)"
    unfolding pthb by (simp add: example_suffixes)
  from kb [unfolded Let_def keptb]
  have b: "sorted (map scheduled [flightA])" "mset [flightA] = mset (filter (\<lambda>f. flightType f = ''Arrival'') (data cacheOld))"
    by blast+
  from get_flights_sorted_after_filter [OF stale_read_departures p]
  obtain pathc where pac: "pathname getDeparturesReq = Some pathc"
    and kc: "let kept = (if suffix ''/arrivals'' pathc
                         then filter (\<lambda>f. flightType f = ''Arrival'') (data (cacheOld\<lparr>isStale := True\<rparr>))
                         else if suffix ''/departures'' pathc
                         then filter (\<lambda>f. flightType f = ''Departure'') (data (cacheOld\<lparr>isStale := True\<rparr>))
                         else data (cacheOld\<lparr>isStale := True\<rparr>))
            in sorted (map scheduled [flightB])
             \<and> mset [flightB] = mset kept
             \<and> (\<forall>k. filter (\<lambda>f. scheduled f = k) [flightB] = filter (\<lambda>f. scheduled f = k) kept)
             \<and> [flightB] = sortByScheduled kept"
    by blast
  from pac have pthc: "pathc = ''/api/flights/departures''" by (simp add: getDeparturesReq_def)
  have keptc: "(if suffix ''/arrivals'' pathc
                         then filter (\<lambda>f. flightType f = ''Arrival'') (data (cacheOld\<lparr>isStale := True\<rparr>))
                         else if suffix ''/departures'' pathc
                         then filter (\<lambda>f. flightType f = ''Departure'') (data (cacheOld\<lparr>isStale := True\<rparr>))
                         else data (cacheOld\<lparr>isStale := True\<rparr>)) = filter (\<lambda>f. flightType f = ''Departure'') (data cacheOld)"
    unfolding pthc by (simp add: example_suffixes)
  from kc [unfolded Let_def keptc]
  have c: "sorted (map scheduled [flightB])" "mset [flightB] = mset (filter (\<lambda>f. flightType f = ''Departure'') (data cacheOld))"
    by blast+
  from a b c stale_read stale_read_arrivals stale_read_departures show ?thesis by blast
qed

section \<open>Arrivals and departures filters\<close>

lemma isArrival_delayed: "\<not> isArrival_f delayedFlight" 
  by code_simp
lemma isDeparture_delayed: "\<not> isDeparture_f delayedFlight" 
  by code_simp
lemma isArrival_sa: "isArrival_f scheduledArrival" 
  by code_simp
lemma isDeparture_sa: "isDeparture_f scheduledArrival" 
  by code_simp

lemma last_parts:
  "toLowerCase (last (split CHR ''/'' ''/api/flights'')) = ''flights''"
  "toLowerCase (last (split CHR ''/'' ''/api/flights/arrivals'')) = ''arrivals''"
  "toLowerCase (last (split CHR ''/'' ''/api/flights/departures'')) = ''departures''"
  by code_simp+


lemma ready_quiet: "\<not> (dateNow_f envQuiet - 1700000000000 > MAX_CACHE_AGE_MS)"
  by (simp add: envQuiet_def MAX_CACHE_AGE_MS_def)

text \<open>
  C5, as stated, fails on the keyword filters of \<open>src/flights.js\<close>: of a ready cache
  holding a flight with status Delayed and one with status Scheduled Arrival, the read
  of all flights returns both, while the arrivals read and the departures read both
  return the second alone. The first record is in neither filtered result, the second in
  both.
\<close>

theorem keyword_filters_do_not_partition:
  "payload (snd (handler_f envQuiet getAll_f cacheReady))
     = FlightsBody_f [delayedFlight, scheduledArrival] (Some 1700000000000) ''all'' ''Erbil Airport''
   \<and> payload (snd (handler_f envQuiet getArrivals_f cacheReady))
     = FlightsBody_f [scheduledArrival] (Some 1700000000000) ''Arrivals'' ''Erbil Airport''
   \<and> payload (snd (handler_f envQuiet getDepartures_f cacheReady))
     = FlightsBody_f [scheduledArrival] (Some 1700000000000) ''Departures'' ''Erbil Airport''"
  by (simp add: handler_f_def getAll_f_def getArrivals_f_def getDepartures_f_def Let_def
      last_parts applyFilter_f_def cacheReady_def ready_quiet
      isArrival_delayed isDeparture_delayed isArrival_sa isDeparture_sa suffix_to_prefix)


lemma rowFlight_typed: "rowFlight e i r = Inr f \<Longrightarrow> typed f"
  by (auto simp add: rowFlight_def typed_def Let_def split: sum.splits if_splits)

lemma eachRow_typed:
  "list_all typed acc \<Longrightarrow> list_all typed (eachRow e i rs acc)"
proof (induction rs arbitrary: i acc)
  case Nil
  then show ?case by simp
next
  case (Cons r rs)
  show ?case
  proof (cases "length (cells r) = 6")
    case False
    with Cons show ?thesis by simp
  next
    case True
    show ?thesis
    proof (cases "rowFlight e i r")
      case (Inl err)
      with True Cons show ?thesis by simp
    next
      case (Inr f)
      then have "typed f" by (rule rowFlight_typed)
      with Cons.prems have "list_all typed (acc @ [f])" by simp
      then have "list_all typed (eachRow e (Suc i) rs (acc @ [f]))" by (rule Cons.IH)
      with True Inr show ?thesis by simp
    qed
  qed
qed

lemma scrapeFlights_typed: "scrapeFlights e = Inr fs \<Longrightarrow> list_all typed fs"
  using eachRow_typed [of "[]" e 0]
  by (auto simp add: scrapeFlights_def split: sum.splits if_splits)

lemma getCachedFlights_typed:
  "list_all typed (data c) \<Longrightarrow> list_all typed (data (fst (getCachedFlights e force c)))"
  by (auto simp add: getCachedFlights_def Let_def dest: scrapeFlights_typed split: sum.splits)

lemma refreshRoute_cache: "fst (refreshRoute e c) = fst (getCachedFlights e True c)"
  by (simp add: refreshRoute_def split: prod.split sum.split)

lemma flightsRoute_cache: "fst (flightsRoute e path c) = fst (getCachedFlights e False c)"
  by (simp add: flightsRoute_def Let_def split: prod.split sum.split)

lemma handler_cache:
  "fst (handler e req c) = c
   \<or> fst (handler e req c) = fst (getCachedFlights e True c)
   \<or> fst (handler e req c) = fst (getCachedFlights e False c)"
  by (simp add: handler_def refreshRoute_cache flightsRoute_cache split: option.split)

lemma handler_typed:
  "list_all typed (data c) \<Longrightarrow> list_all typed (data (fst (handler e req c)))"
  using handler_cache [of e req c] getCachedFlights_typed [of c e True]
    getCachedFlights_typed [of c e False] by auto

lemma serve_typed:
  "list_all typed (data c) \<Longrightarrow> list_all typed (data (serve c hist))"
  by (induction hist arbitrary: c) (simp_all add: handler_typed)

lemma partition_mset:
  "list_all (\<lambda>x. P x \<noteq> Q x) xs \<Longrightarrow> mset (filter P xs) + mset (filter Q xs) = mset xs"
  by (induction xs) auto

lemma no_overlap: "list_all (\<lambda>x. P x \<noteq> Q x) xs \<Longrightarrow> filter (\<lambda>x. P x \<and> Q x) xs = []"
  by (induction xs) auto

lemma no_gap: "list_all (\<lambda>x. P x \<noteq> Q x) xs \<Longrightarrow> filter (\<lambda>x. \<not> P x \<and> \<not> Q x) xs = []"
  by (induction xs) auto

lemma typed_exclusive:
  "list_all typed fs \<Longrightarrow> list_all (\<lambda>f. (flightType f = ''Arrival'') \<noteq> (flightType f = ''Departure'')) fs"
  by (induction fs) (auto simp add: typed_def)


lemma isArrival_landed: "isArrival_f landedFlight"
  by code_simp

lemma isDeparture_landed: "\<not> isDeparture_f landedFlight"
  by code_simp

lemma served_once:
  "data (serve initialCache [(envUp, getAll)]) =
     [\<lparr>flightType = ''Arrival'', scheduled = 1700033400000, flightNo = ''IA220'',
       city = ''Baghdad'', airline = ''Iraqi Airways'', status = ''Landed''\<rparr>,
      \<lparr>flightType = ''Departure'', scheduled = 1700084700000, flightNo = ''TK316'',
       city = ''Istanbul'', airline = ''Turkish Airlines'', status = ''Boarding''\<rparr>]"
  by code_simp

text \<open>
  C5, amended. Whatever requests the handler of \<open>src/index.js\<close> has served, the arrivals
  filter and the departures filter partition the cached list: as multisets the two
  filtered lists add up to the whole, no record passes both filters and no record passes
  neither. The keyword filters of \<open>src/flights.js\<close> partition the lists in which the
  status of every record matches exactly one of the two keyword groups.
\<close>

theorem type_filters_partition:
  "mset (filter (\<lambda>f. flightType f = ''Arrival'') (data (serve initialCache hist)))
     + mset (filter (\<lambda>f. flightType f = ''Departure'') (data (serve initialCache hist)))
     = mset (data (serve initialCache hist))
   \<and> filter (\<lambda>f. flightType f = ''Arrival'' \<and> flightType f = ''Departure'')
        (data (serve initialCache hist)) = []
   \<and> filter (\<lambda>f. \<not> flightType f = ''Arrival'' \<and> \<not> flightType f = ''Departure'')
        (data (serve initialCache hist)) = []
   \<and> (list_all (\<lambda>f. isArrival_f f \<noteq> isDeparture_f f) fl \<longrightarrow>
        mset (filter isArrival_f fl) + mset (filter isDeparture_f fl) = mset fl)"
proof -
  have "list_all typed (data initialCache)" by (simp add: initialCache_def)
  then have "list_all typed (data (serve initialCache hist))" by (rule serve_typed)
  then have ex: "list_all (\<lambda>f. (flightType f = ''Arrival'') \<noteq> (flightType f = ''Departure''))
                   (data (serve initialCache hist))"
    by (rule typed_exclusive)
  show ?thesis
    using partition_mset [OF ex] no_overlap [OF ex] no_gap [OF ex]
      partition_mset [of isArrival_f isDeparture_f fl]
    by simp
qed

theorem type_filters_partition_witness:
  "data (serve initialCache [(envUp, getAll)]) =
     [\<lparr>flightType = ''Arrival'', scheduled = 1700033400000, flightNo = ''IA220'',
       city = ''Baghdad'', airline = ''Iraqi Airways'', status = ''Landed''\<rparr>,
      \<lparr>flightType = ''Departure'', scheduled = 1700084700000, flightNo = ''TK316'',
       city = ''Istanbul'', airline = ''Turkish Airlines'', status = ''Boarding''\<rparr>]
   \<and> mset (filter (\<lambda>f. flightType f = ''Arrival'') (data (serve initialCache [(envUp, getAll)])))
     + mset (filter (\<lambda>f. flightType f = ''Departure'') (data (serve initialCache [(envUp, getAll)])))
     = mset (data (serve initialCache [(envUp, getAll)]))
   \<and> list_all (\<lambda>f. isArrival_f f \<noteq> isDeparture_f f) [landedFlight]
   \<and> mset (filter isArrival_f [landedFlight]) + mset (filter isDeparture_f [landedFlight])
       = mset [landedFlight]"
  using type_filters_partition [of "[(envUp, getAll)]" "[landedFlight]"] served_once
  by (simp add: isArrival_landed isDeparture_landed)

section \<open>The row extractor of src/index.js\<close>

lemma eachRow_map_filter:
  "eachRow e i rs acc = acc @ List.map_filter (extracted e) (zip [i..<i + length rs] rs)"
proof (induction rs arbitrary: i acc)
  case Nil
  then show ?case by (simp add: List.map_filter_simps)
next
  case (Cons r rs)
  have z: "zip [i..<i + length (r # rs)] (r # rs) = (i, r) # zip [Suc i..<Suc i + length rs] rs"
    by (simp add: upt_conv_Cons del: upt_Suc)
  show ?case
    unfolding z
    by (simp add: Cons.IH List.map_filter_simps extracted_def split: sum.split)
qed

text \<open>
  C8. Once the page is fetched and parsed, \<open>scrapeFlights\<close> always returns a list and
  never an error. The list holds, in page order, the records of exactly the rows that
  have six cells and convert without a fault; every other row is left out and has no
  effect on the rows around it. With no matched row, or with no row of six cells, the
  list is empty.
\<close>

theorem scrapeFlights_skips_bad_rows:
  assumes "fetched e = Inr rows"
  shows "scrapeFlights e = Inr (List.map_filter (extracted e) (zip [0..<length rows] rows))
       \<and> (rows = [] \<longrightarrow> scrapeFlights e = Inr [])
       \<and> (list_all (\<lambda>r. length (cells r) \<noteq> 6) rows \<longrightarrow> scrapeFlights e = Inr [])"
proof -
  have a: "scrapeFlights e = Inr (List.map_filter (extracted e) (zip [0..<length rows] rows))"
    using assms eachRow_map_filter [of e 0 rows "[]"]
    by (simp add: scrapeFlights_def List.map_filter_simps)
  have b: "list_all (\<lambda>r. length (cells r) \<noteq> 6) rs \<Longrightarrow> eachRow e i rs [] = []" for rs i
    by (induction rs arbitrary: i) simp_all
  from assms b [of rows 0] have c: "list_all (\<lambda>r. length (cells r) \<noteq> 6) rows \<longrightarrow> scrapeFlights e = Inr []"
    by (simp add: scrapeFlights_def)
  from a c assms show ?thesis by (simp add: scrapeFlights_def)
qed

lemma envUp_fetched: "fetched envUp = Inr examplePage"
  by (simp add: envUp_def)

lemma envUp_scraped:
  "scrapeFlights envUp =
     Inr [\<lparr>flightType = ''Arrival'', scheduled = 1700033400000, flightNo = ''IA220'',
           city = ''Baghdad'', airline = ''Iraqi Airways'', status = ''Landed''\<rparr>,
          \<lparr>flightType = ''Departure'', scheduled = 1700084700000, flightNo = ''TK316'',
           city = ''Istanbul'', airline = ''Turkish Airlines'', status = ''Boarding''\<rparr>]"
  by code_simp

lemma examplePage_extracted:
  "map (extracted envUp) (zip [0..<length examplePage] examplePage) =
     [Some \<lparr>flightType = ''Arrival'', scheduled = 1700033400000, flightNo = ''IA220'',
           city = ''Baghdad'', airline = ''Iraqi Airways'', status = ''Landed''\<rparr>,
      Some \<lparr>flightType = ''Departure'', scheduled = 1700084700000, flightNo = ''TK316'',
           city = ''Istanbul'', airline = ''Turkish Airlines'', status = ''Boarding''\<rparr>,
      None, None]"
  by code_simp


theorem scrapeFlights_skips_bad_rows_witness:
  "fetched envUp = Inr examplePage
   \<and> scrapeFlights envUp =
       Inr [\<lparr>flightType = ''Arrival'', scheduled = 1700033400000, flightNo = ''IA220'',
             city = ''Baghdad'', airline = ''Iraqi Airways'', status = ''Landed''\<rparr>,
            \<lparr>flightType = ''Departure'', scheduled = 1700084700000, flightNo = ''TK316'',
             city = ''Istanbul'', airline = ''Turkish Airlines'', status = ''Boarding''\<rparr>]
   \<and> scrapeFlights envUp
       = Inr (List.map_filter (extracted envUp) (zip [0..<length examplePage] examplePage))
   \<and> fetched (envUp\<lparr>fetched := Inr []\<rparr>) = Inr []
   \<and> scrapeFlights (envUp\<lparr>fetched := Inr []\<rparr>) = Inr []"
  using scrapeFlights_skips_bad_rows [OF envUp_fetched]
    scrapeFlights_skips_bad_rows [of "envUp\<lparr>fetched := Inr []\<rparr>" "[]"]
    envUp_fetched envUp_scraped
  by simp

section \<open>Resolving a clock time\<close>

lemma resolve_arith:
  fixes now tz tod :: int
  assumes tod: "0 \<le> tod" "tod < 86400000"
    and range: "\<bar>now\<bar> + 86400000 \<le> 8640000000000000"
  defines "d \<equiv> (now + tz) div 86400000 * 86400000 + tod - tz"
  shows "\<bar>d\<bar> \<le> 8640000000000000"
    and "d < now \<longleftrightarrow> tod < (now + tz) mod 86400000"
    and "d < now \<Longrightarrow> \<bar>d + 86400000\<bar> \<le> 8640000000000000"
    and "(d + tz) div 86400000 = (now + tz) div 86400000"
    and "(d + tz) mod 86400000 = tod"
    and "(d + 86400000 + tz) div 86400000 = (now + tz) div 86400000 + 1"
    and "(d + 86400000 + tz) mod 86400000 = tod"
    and "now - 86400000 < d" and "d < now + 86400000"
proof -
  define q where "q = (now + tz) div 86400000"
  define r where "r = (now + tz) mod 86400000"
  have n: "now + tz = q * 86400000 + r" and r: "0 \<le> r" "r < 86400000"
    by (simp_all add: q_def r_def)
  have d: "d = q * 86400000 + tod - tz" by (simp add: d_def q_def)
  from n d have dn: "d - now = tod - r" by simp
  from dn tod r range show "\<bar>d\<bar> \<le> 8640000000000000" by linarith
  from dn show "d < now \<longleftrightarrow> tod < (now + tz) mod 86400000" unfolding r_def [symmetric] by linarith
  from dn tod r range show "d < now \<Longrightarrow> \<bar>d + 86400000\<bar> \<le> 8640000000000000" by linarith
  from dn tod r show "now - 86400000 < d" by linarith
  from dn tod r show "d < now + 86400000" by linarith
  have e1: "d + tz = 86400000 * q + tod" using d by simp
  have e2: "d + 86400000 + tz = 86400000 * (q + 1) + tod" using d by simp
  show "(d + tz) div 86400000 = (now + tz) div 86400000"
    unfolding q_def [symmetric] using e1 tod by (rule int_div_pos_eq)
  show "(d + tz) mod 86400000 = tod"
    using e1 tod by (rule int_mod_pos_eq)
  show "(d + 86400000 + tz) div 86400000 = (now + tz) div 86400000 + 1"
    unfolding q_def [symmetric] using e2 tod by (rule int_div_pos_eq)
  show "(d + 86400000 + tz) mod 86400000 = tod"
    using e2 tod by (rule int_mod_pos_eq)
qed

text \<open>
  C6, amended. A row whose time text gives an hour below 24 and a minute below 60, read
  at a moment around which the host zone is steady (one offset, less than a day in
  size, from a day before to a day after), becomes a record whose \<open>scheduled\<close> has that
  clock time, on the calendar day of the moment of reading when the clock time is not
  before that moment's time of day (taken to the millisecond), and on the following
  calendar day when it is before. The moment read is at least a day inside the range of
  \<open>Date\<close> and not in the years 0 to 99.
\<close>

theorem clock_time_rollover:
  assumes parts: "map (toNumber e) (split CHR '':'' (trim (cells r ! 0))) = Some hh # Some mm # rest"
    and hh: "0 \<le> hh" "hh < 24"
    and mm: "0 \<le> mm" "mm < 60"
    and range: "\<bar>clock e i\<bar> + msPerDay \<le> 8640000000000000"
    and year: "\<not> twoDigitYear (localDay (hostZone e) (clock e i))"
    and tz: "\<bar>tz\<bar> \<le> msPerDay"
    and steady: "steadyZone (hostZone e) tz (clock e i - msPerDay) (clock e i + msPerDay)"
  shows "\<exists>f. rowFlight e i r = Inr f
       \<and> msOfDay (hostZone e) (scheduled f) = hh * msPerHour + mm * msPerMinute
       \<and> localDay (hostZone e) (scheduled f) =
           (if msOfDay (hostZone e) (clock e i) \<le> hh * msPerHour + mm * msPerMinute
            then localDay (hostZone e) (clock e i)
            else localDay (hostZone e) (clock e i) + 1)"
proof -
  define z where "z = hostZone e"
  define tod where "tod = hh * 3600000 + mm * 60000"
  define now where "now = clock e i"
  define d where "d = (now + tz) div 86400000 * 86400000 + tod - tz"
  have tod: "0 \<le> tod" "tod < 86400000"
    using hh mm by (simp_all add: tod_def)
  have rng: "\<bar>now\<bar> + 86400000 \<le> 8640000000000000"
    using range by (simp add: now_def msPerDay_def)
  have tzb: "\<bar>tz\<bar> \<le> 86400000" using tz by (simp add: msPerDay_def)
  note ar = resolve_arith [OF tod rng, of tz, folded d_def]
  have at: "offsetAt z t = tz" if "now - 86400000 \<le> t" "t \<le> now + 86400000" for t
    using steady that by (simp add: steadyZone_def z_def now_def msPerDay_def)
  have ol: "offsetOfLocal z u = tz" if "now - 86400000 + tz \<le> u" "u \<le> now + 86400000 + tz" for u
    using steady that by (simp add: steadyZone_def z_def now_def msPerDay_def)
  have atnow: "offsetAt z now = tz" by (rule at) simp_all
  have day: "localDay z now = (now + tz) div 86400000"
    by (simp add: localDay_def LocalTime_def atnow msPerDay_def)
  have tl: "(now + tz) div 86400000 * 86400000 + hh * 3600000 + mm * 60000 = d + tz"
    by (simp add: d_def tod_def)
  have old: "offsetOfLocal z (d + tz) = tz"
    using ar(8) ar(9) by (intro ol) simp_all
  have dayb: "\<bar>(now + tz) div 86400000 * 86400000\<bar> \<le> \<bar>now\<bar> + 2 * 86400000"
  proof -
    have "(now + tz) div 86400000 * 86400000 = now + tz - (now + tz) mod 86400000"
      by (simp add: algebra_simps minus_mod_eq_mult_div [symmetric])
    moreover have "0 \<le> (now + tz) mod 86400000" "(now + tz) mod 86400000 < 86400000"
      by simp_all
    ultimately show ?thesis using tzb by linarith
  qed
  have p53: "(2::int) ^ 53 = 9007199254740992" by simp
  have ex: "exactFields ((now + tz) div 86400000) hh mm"
    unfolding exactFields_def msPerDay_def msPerHour_def msPerMinute_def p53
    using hh mm dayb rng tod unfolding tod_def by (intro conjI) linarith+
  have yr: "\<not> twoDigitYear ((now + tz) div 86400000)"
    using year unfolding z_def [symmetric] now_def [symmetric] day .
  have nd: "newDate z (hostDate e) now (Some hh) (Some mm) = Some d"
    using ar(1) ex yr old tl
    by (simp add: newDate_def day UTC_def TimeClip_def msPerDay_def msPerHour_def
        msPerMinute_def Let_def)
  have mo: "msOfDay z now = (now + tz) mod 86400000"
    by (simp add: msOfDay_def LocalTime_def atnow msPerDay_def)
  have sd: "scheduledDate e i (trim (cells r ! 0)) =
              (if d < now then setDateNext z (Some d) else Some d)"
    using nd by (simp add: scheduledDate_def parts Let_def dateLess_def now_def z_def)
  show ?thesis
  proof (cases "d < now")
    case True
    have atd: "offsetAt z d = tz" using ar(8) True by (intro at) simp_all
    have ol2: "offsetOfLocal z (d + tz + 86400000) = tz"
      using ar(8) True by (intro ol) simp_all
    have atr: "offsetAt z (d + 86400000) = tz"
      using ar(8) True by (intro at) simp_all
    have "setDateNext z (Some d) = Some (d + 86400000)"
      using ar(3) [OF True] atd ol2
      by (simp add: setDateNext_def LocalTime_def UTC_def TimeClip_def msPerDay_def)
    with sd True have "scheduledDate e i (trim (cells r ! 0)) = Some (d + 86400000)" by simp
    then show ?thesis
      using True ar(2) ar(6) ar(7) atr day mo
      by (simp add: rowFlight_def toISOString_def msOfDay_def localDay_def LocalTime_def
          msPerDay_def msPerHour_def msPerMinute_def tod_def now_def z_def)
  next
    case False
    have atd: "offsetAt z d = tz" using ar(9) False by (intro at) simp_all
    from sd False have "scheduledDate e i (trim (cells r ! 0)) = Some d" by simp
    then show ?thesis
      using False ar(2) ar(4) ar(5) atd day mo
      by (simp add: rowFlight_def toISOString_def msOfDay_def localDay_def LocalTime_def
          msPerDay_def msPerHour_def msPerMinute_def tod_def now_def z_def)
  qed
qed


lemma example_parts:
  "map (toNumber envUp) (split CHR '':'' (trim (cells (examplePage ! 0) ! 0))) = [Some 10, Some 30]"
  "map (toNumber envUp) (split CHR '':'' (trim (cells (examplePage ! 1) ! 0))) = [Some 0, Some 45]"
  by code_simp+

lemma example_clock: "\<bar>clock envUp i\<bar> + msPerDay \<le> 8640000000000000"
  by (simp add: envUp_def msPerDay_def)

lemma example_zone:
  "steadyZone (hostZone envUp) 10800000 (clock envUp i - msPerDay) (clock envUp i + msPerDay)"
  by (simp add: steadyZone_def envUp_def zoneFixed_def)

lemma example_offset: "\<bar>10800000\<bar> \<le> msPerDay"
  by (simp add: msPerDay_def)

lemma example_year: "\<not> twoDigitYear (localDay (hostZone envUp) (clock envUp i))"
  by (simp add: twoDigitYear_def envUp_def zoneFixed_def localDay_def LocalTime_def msPerDay_def)

lemma example_rows:
  "rowFlight envUp 0 (examplePage ! 0) =
     Inr \<lparr>flightType = ''Arrival'', scheduled = 1700033400000, flightNo = ''IA220'',
          city = ''Baghdad'', airline = ''Iraqi Airways'', status = ''Landed''\<rparr>"
  "rowFlight envUp 1 (examplePage ! 1) =
     Inr \<lparr>flightType = ''Departure'', scheduled = 1700084700000, flightNo = ''TK316'',
          city = ''Istanbul'', airline = ''Turkish Airlines'', status = ''Boarding''\<rparr>"
  by code_simp+

lemma example_days:
  "localDay (hostZone envUp) (clock envUp i) = 19676"
  "msOfDay (hostZone envUp) (clock envUp i) = 4400000"
  by (simp_all add: envUp_def zoneFixed_def localDay_def msOfDay_def LocalTime_def msPerDay_def)

theorem clock_time_rollover_witness:
  "map (toNumber envUp) (split CHR '':'' (trim (cells (examplePage ! 0) ! 0))) = [Some 10, Some 30]
   \<and> map (toNumber envUp) (split CHR '':'' (trim (cells (examplePage ! 1) ! 0))) = [Some 0, Some 45]
   \<and> \<bar>clock envUp 0\<bar> + msPerDay \<le> 8640000000000000
   \<and> \<bar>clock envUp 1\<bar> + msPerDay \<le> 8640000000000000
   \<and> steadyZone (hostZone envUp) 10800000 (clock envUp 0 - msPerDay) (clock envUp 0 + msPerDay)
   \<and> steadyZone (hostZone envUp) 10800000 (clock envUp 1 - msPerDay) (clock envUp 1 + msPerDay)
   \<and> localDay (hostZone envUp) (clock envUp 0) = 19676
   \<and> localDay (hostZone envUp) (clock envUp 1) = 19676
   \<and> \<not> twoDigitYear 19676
   \<and> (\<exists>f. rowFlight envUp 0 (examplePage ! 0) = Inr f
          \<and> msOfDay (hostZone envUp) (scheduled f) = 37800000
          \<and> localDay (hostZone envUp) (scheduled f) = 19676)
   \<and> (\<exists>f. rowFlight envUp 1 (examplePage ! 1) = Inr f
          \<and> msOfDay (hostZone envUp) (scheduled f) = 2700000
          \<and> localDay (hostZone envUp) (scheduled f) = 19677)"
  using clock_time_rollover [OF example_parts(1) _ _ _ _ example_clock example_year example_offset example_zone, of 0]
    clock_time_rollover [OF example_parts(2) _ _ _ _ example_clock example_year example_offset example_zone, of 1]
    example_parts example_clock [of 0] example_clock [of 1] example_days
    example_zone [of 0] example_zone [of 1] example_year [of 0]
  by (simp add: msPerHour_def msPerMinute_def)

lemma dst_row:
  "rowFlight envDst 0 rowDst =
     Inr \<lparr>flightType = ''Arrival'', scheduled = 1698629400000, flightNo = ''LH696'',
          city = ''Frankfurt'', airline = ''Lufthansa'', status = ''Scheduled''\<rparr>"
  by code_simp

text \<open>
  C6, as stated, fails where the host zone changes its offset: in the zone that falls
  back at 2023-10-29T01:00:00Z, a row for 02:30 read at 02:15 on the second pass of that
  hour has a clock time later than the current one, yet its record is dated the next
  calendar day. The constructor reads 02:30 as its first occurrence, which is already
  past.
\<close>

theorem repeated_hour_rolls_to_next_day:
  "map (toNumber envDst) (split CHR '':'' (trim (cells rowDst ! 0))) = [Some 2, Some 30]
   \<and> localDay (hostZone envDst) (clock envDst 0) = 19659
   \<and> msOfDay (hostZone envDst) (clock envDst 0) = 2 * msPerHour + 15 * msPerMinute
   \<and> rowFlight envDst 0 rowDst =
       Inr \<lparr>flightType = ''Arrival'', scheduled = 1698629400000, flightNo = ''LH696'',
            city = ''Frankfurt'', airline = ''Lufthansa'', status = ''Scheduled''\<rparr>
   \<and> msOfDay (hostZone envDst) 1698629400000 = 2 * msPerHour + 30 * msPerMinute
   \<and> localDay (hostZone envDst) 1698629400000 = 19660"
proof -
  have "map (toNumber envDst) (split CHR '':'' (trim (cells rowDst ! 0))) = [Some 2, Some 30]"
    by code_simp
  moreover have "localDay (hostZone envDst) (clock envDst 0) = 19659"
    "msOfDay (hostZone envDst) (clock envDst 0) = 2 * msPerHour + 15 * msPerMinute"
    "msOfDay (hostZone envDst) 1698629400000 = 2 * msPerHour + 30 * msPerMinute"
    "localDay (hostZone envDst) 1698629400000 = 19660"
    by (simp_all add: envDst_def zoneDst_def localDay_def msOfDay_def LocalTime_def
        msPerDay_def msPerHour_def msPerMinute_def)
  ultimately show ?thesis using dst_row by simp
qed

section \<open>The fallback to sample data\<close>










lemma show_stamp: "showInt 1700000600000 = ''1700000600000''"
  by (simp add: showInt_def digitChar_def)

lemma filled_by_fetch: "fetchFlights envUp_p initialServer = serverFilled"
  by (simp add: fetchFlights_def fetchFlights_begin_def fetchFlights_resume_def scrapeTables_def
      parseFlightRow_def envUp_p_def initialServer_def serverFilled_def show_stamp orElse_def
      trim_def isSpace_def Let_def)

section \<open>The in-progress guard\<close>

lemma resume_resets: "\<not> isFetching (fetchFlights_resume e s)"
  by (simp add: fetchFlights_resume_def Let_def)

lemma step_inv: "guardInv sy \<Longrightarrow> guardInv (step sy ev)"
proof (cases ev)
  case Invoke
  assume "guardInv sy"
  with Invoke show ?thesis
    by (cases "isFetching (srv sy)") (simp_all add: guardInv_def fetchFlights_begin_def)
next
  case (Settle e)
  assume "guardInv sy"
  with Settle show ?thesis
    by (cases "isFetching (srv sy)") (simp_all add: guardInv_def resume_resets)
qed (simp_all)

lemma run_inv: "guardInv sy \<Longrightarrow> guardInv (run sy evs)"
  unfolding run_def by (induction evs arbitrary: sy) (simp_all add: step_inv)

lemma initial_inv: "guardInv initialSys"
  by (simp add: guardInv_def initialSys_def initialServer_def)

lemma two_invocations:
  "started (run sy [Invoke, Invoke]) = started sy + (if isFetching (srv sy) then 0 else 1)"
  by (simp add: run_def fetchFlights_begin_def)

text \<open>
  C7, amended. In the server with a scheduled fetcher: \<open>fetchFlights\<close> invoked while the
  guard flag is set issues no request and leaves the state as it is; the flag is reset
  when the awaited request settles, whatever its outcome; over every sequence of
  invocations, settlings and reads from start-up at most one request is in flight, and
  one is in flight exactly while the flag is set; two invocations in a row issue one
  request when the flag was clear and none when it was set; a read changes nothing and
  issues no request.
\<close>

theorem single_fetch_guard:
  "(isFetching s \<longrightarrow> fetchFlights_begin s = (s, False))
   \<and> \<not> isFetching (fetchFlights_resume e s)
   \<and> pending (run initialSys evs) \<le> 1
   \<and> (pending (run initialSys evs) = 1 \<longleftrightarrow> isFetching (srv (run initialSys evs)))
   \<and> started (run sy [Invoke, Invoke]) = started sy + (if isFetching (srv sy) then 0 else 1)
   \<and> run sy [ReadAll] = sy \<and> run sy [ReadArrivals] = sy \<and> run sy [ReadDepartures] = sy"
proof -
  have "guardInv (run initialSys evs)" using initial_inv by (rule run_inv)
  then have "pending (run initialSys evs) \<le> 1
     \<and> (pending (run initialSys evs) = 1 \<longleftrightarrow> isFetching (srv (run initialSys evs)))"
    by (simp add: guardInv_def)
  then show ?thesis
    using two_invocations [of sy]
    by (simp add: fetchFlights_begin_def resume_resets run_def)
qed

lemma stale_state:
  "sysStale = \<lparr>srv = \<lparr>flightData = getSampleData envDown_p, lastFetched_p = None, isFetching = False\<rparr>,
               pending = 0, started = 1\<rparr>"
  by (simp add: sysStale_def run_def initialSys_def initialServer_def fetchFlights_begin_def
      fetchFlights_resume_def envDown_p_def)

text \<open>
  C7, as stated, fails in its last clause: after the start-up fetch has failed, with no
  successful fetch on record and no request in flight, two reads issue no request at
  all; the count of requests stays at the one of start-up.
\<close>

theorem reads_start_no_fetch:
  "lastFetched_p (srv sysStale) = None \<and> \<not> isFetching (srv sysStale) \<and> pending sysStale = 0
   \<and> started sysStale = 1
   \<and> started (run sysStale [ReadAll, ReadAll]) = 1
   \<and> started (run sysStale [ReadAll, ReadAll]) - started sysStale = 0"
  by (simp add: stale_state run_def)

theorem single_fetch_guard_witness:
  "isFetching serverBusy \<and> fetchFlights_begin serverBusy = (serverBusy, False)
   \<and> \<not> isFetching (fetchFlights_resume envDown_p serverBusy)
   \<and> pending (run initialSys [Invoke, Invoke, Settle envDown_p, Invoke]) = 1
   \<and> isFetching (srv (run initialSys [Invoke, Invoke, Settle envDown_p, Invoke]))
   \<and> started (run initialSys [Invoke, Invoke]) = 1"
proof -
  have b: "isFetching serverBusy" by (simp add: serverBusy_def)
  have p: "pending (run initialSys [Invoke, Invoke, Settle envDown_p, Invoke]) = 1"
    by (simp add: run_def initialSys_def initialServer_def fetchFlights_begin_def resume_resets)
  show ?thesis
    using single_fetch_guard [of serverBusy envDown_p "[Invoke, Invoke, Settle envDown_p, Invoke]" initialSys]
      b p
    by (simp add: initialSys_def initialServer_def)
qed

section \<open>Isolation of the returned snapshot\<close>

lemma objAt_append: "a < length h \<Longrightarrow> objAt (h @ ext) a = objAt h a"
  by (simp add: objAt_def nth_append)

lemma objAt_update: "a \<noteq> b \<Longrightarrow> objAt (h[a := ob]) b = objAt h b"
  by (simp add: objAt_def)

lemma objAt_Some_less: "objAt h a = Some ob \<Longrightarrow> a < length h"
  by (simp add: objAt_def split: if_splits)

lemma flightAt_less: "flightAt h a = Some f \<Longrightarrow> a < length h"
  by (auto simp add: flightAt_def dest: objAt_Some_less split: option.splits obj.splits)

lemma flightAt_append: "flightAt h a = Some f \<Longrightarrow> flightAt (h @ ext) a = Some f"
  using flightAt_less [of h a f] by (simp add: flightAt_def objAt_append)

lemma flightAt_update: "a \<noteq> b \<Longrightarrow> flightAt (h[a := ob]) b = flightAt h b"
  by (simp add: flightAt_def objAt_update)

lemma those_map_cong:
  "those (map f xs) = Some ys \<Longrightarrow> (\<And>x y. x \<in> set xs \<Longrightarrow> f x = Some y \<Longrightarrow> g x = Some y) \<Longrightarrow>
     those (map g xs) = Some ys"
proof (induction xs arbitrary: ys)
  case Nil
  then show ?case by simp
next
  case (Cons x xs)
  from Cons.prems(1) obtain y ys' where fx: "f x = Some y" and r: "those (map f xs) = Some ys'"
    and ys: "ys = y # ys'"
    by (auto split: option.splits)
  have "g x = Some y" using Cons.prems(2) [of x y] fx by simp
  moreover have "those (map g xs) = Some ys'"
    using r Cons.prems(2) by (intro Cons.IH) auto
  ultimately show ?case using ys by simp
qed

lemma arrayAt_append: "arrayAt h a = Some fs \<Longrightarrow> arrayAt (h @ ext) a = Some fs"
proof -
  assume a: "arrayAt h a = Some fs"
  then obtain rs where o: "objAt h a = Some (ArrayObj rs)" and t: "those (map (flightAt h) rs) = Some fs"
    by (auto simp add: arrayAt_def split: option.splits obj.splits)
  from o have "objAt (h @ ext) a = Some (ArrayObj rs)"
    using objAt_Some_less [OF o] by (simp add: objAt_append)
  moreover have "those (map (flightAt (h @ ext)) rs) = Some fs"
    using t by (rule those_map_cong) (simp add: flightAt_append)
  ultimately show ?thesis by (simp add: arrayAt_def)
qed

lemma cacheAt_append: "cacheAt h a = Some c \<Longrightarrow> cacheAt (h @ ext) a = Some c"
proof -
  assume a: "cacheAt h a = Some c"
  then obtain d lf st fs where o: "objAt h a = Some (CacheObj d lf st)"
    and ar: "arrayAt h d = Some fs" and c: "c = \<lparr>data = fs, lastFetched = lf, isStale = st\<rparr>"
    by (auto simp add: cacheAt_def split: option.splits obj.splits)
  from o have "objAt (h @ ext) a = Some (CacheObj d lf st)"
    using objAt_Some_less [OF o] by (simp add: objAt_append)
  with arrayAt_append [OF ar, of ext] c show ?thesis by (simp add: cacheAt_def)
qed

lemma footprint_append: "cacheAt h a = Some c \<Longrightarrow> footprint (h @ ext) a = footprint h a"
proof -
  assume a: "cacheAt h a = Some c"
  then obtain d lf st rs where o: "objAt h a = Some (CacheObj d lf st)"
    and od: "objAt h d = Some (ArrayObj rs)"
    by (auto simp add: cacheAt_def arrayAt_def split: option.splits obj.splits)
  from o od show ?thesis
    using objAt_Some_less [OF o] objAt_Some_less [OF od]
    by (simp add: footprint_def objAt_append)
qed

lemma cacheAt_frame:
  assumes "cacheAt h p = Some c" and "a \<notin> footprint h p"
  shows "cacheAt (h[a := ob]) p = Some c \<and> footprint (h[a := ob]) p = footprint h p"
proof -
  from assms(1) obtain d lf st rs fs where o: "objAt h p = Some (CacheObj d lf st)"
    and od: "objAt h d = Some (ArrayObj rs)" and t: "those (map (flightAt h) rs) = Some fs"
    and c: "c = \<lparr>data = fs, lastFetched = lf, isStale = st\<rparr>"
    by (auto simp add: cacheAt_def arrayAt_def split: option.splits obj.splits)
  from assms(2) o od have ne: "a \<noteq> p" "a \<noteq> d" "a \<notin> set rs"
    by (simp_all add: footprint_def)
  have o': "objAt (h[a := ob]) p = Some (CacheObj d lf st)" using o ne by (simp add: objAt_update)
  have od': "objAt (h[a := ob]) d = Some (ArrayObj rs)" using od ne by (simp add: objAt_update)
  have t': "those (map (flightAt (h[a := ob])) rs) = Some fs"
    using t
  proof (rule those_map_cong)
    fix x y assume x: "x \<in> set rs" and y: "flightAt h x = Some y"
    from x ne(3) have "a \<noteq> x" by blast
    with y show "flightAt (h[a := ob]) x = Some y" by (simp add: flightAt_update)
  qed
  from o od o' od' t' c show ?thesis by (simp add: cacheAt_def arrayAt_def footprint_def)
qed


lemma those_fresh:
  "those (map (flightAt (h @ map FlightObj fs @ ext)) [length h..<length h + length fs]) = Some fs"
proof -
  have "map (flightAt (h @ map FlightObj fs @ ext)) [length h..<length h + length fs] = map Some fs"
    by (rule nth_equalityI) (simp_all add: flightAt_def objAt_def nth_append)
  moreover have "those (map Some xs) = Some xs" for xs :: "flight list"
    by (induction xs) simp_all
  ultimately show ?thesis by simp
qed

lemma allocArray_read:
  "allocArray fs h = (a, h1) \<Longrightarrow>
     arrayAt h1 a = Some fs \<and> a = length h + length fs \<and> length h1 = Suc (length h + length fs)
     \<and> objAt h1 a = Some (ArrayObj [length h..<length h + length fs])
     \<and> h1 = h @ map FlightObj fs @ [ArrayObj [length h..<length h + length fs]]"
  using those_fresh [of h fs "[ArrayObj [length h..<length h + length fs]]"]
  by (auto simp add: allocArray_def arrayAt_def objAt_def nth_append)

text \<open>A successful deep copy: the snapshot has the value of the cache and shares no address with it.\<close>

lemma deepCopy_fresh:
  assumes "cacheAt h root = Some c" and "deepCopy root h = (h', r)"
  shows "\<exists>ext. h' = h @ ext \<and> r = Inr (length h' - 1)
        \<and> cacheAt h' (length h' - 1) = Some c
        \<and> footprint h' (length h' - 1) \<inter> {..<length h} = {}
        \<and> length h < length h'"
proof -
  define n where "n = length h"
  define k where "k = length (data c)"
  define ext where "ext = map FlightObj (data c) @ [ArrayObj [n..<n + k]] @ [CacheObj (n + k) (lastFetched c) (isStale c)]"
  from assms have h': "h' = h @ ext" and r: "r = Inr (Suc (n + k))"
    by (simp_all add: deepCopy_def allocArray_def ext_def n_def k_def)
  have len: "length h' = Suc (Suc (n + k))" by (simp add: h' ext_def n_def k_def)
  have oc: "objAt h' (Suc (n + k)) = Some (CacheObj (n + k) (lastFetched c) (isStale c))"
    by (simp add: objAt_def h' ext_def n_def k_def nth_append)
  have oa: "objAt h' (n + k) = Some (ArrayObj [n..<n + k])"
    by (simp add: objAt_def h' ext_def n_def k_def nth_append)
  have th: "those (map (flightAt h') [n..<n + k]) = Some (data c)"
    using those_fresh [of h "data c" "[ArrayObj [n..<n + k]] @ [CacheObj (n + k) (lastFetched c) (isStale c)]"]
    by (simp add: h' ext_def n_def k_def)
  have ca: "cacheAt h' (Suc (n + k)) = Some c"
    using oc oa th by (simp add: cacheAt_def arrayAt_def)
  have fp: "footprint h' (Suc (n + k)) = insert (Suc (n + k)) (insert (n + k) {n..<n + k})"
    using oc oa by (simp add: footprint_def)
  have "footprint h' (Suc (n + k)) \<inter> {..<n} = {}"
    unfolding fp by auto
  with h' r len ca show ?thesis by (auto simp add: n_def)
qed


lemma those_map_Some_mem:
  "those (map f xs) = Some ys \<Longrightarrow> x \<in> set xs \<Longrightarrow> \<exists>y. f x = Some y"
  by (induction xs arbitrary: ys) (auto split: option.splits)

lemma those_map_length: "those (map f xs) = Some ys \<Longrightarrow> length xs = length ys"
  by (induction xs arbitrary: ys) (auto split: option.splits)

lemma cacheAt_parts:
  assumes "cacheAt h p = Some c"
  obtains d rs where "objAt h p = Some (CacheObj d (lastFetched c) (isStale c))"
    and "objAt h d = Some (ArrayObj rs)"
    and "those (map (flightAt h) rs) = Some (data c)"
    and "p < length h" and "d < length h" and "\<forall>r\<in>set rs. r < length h"
    and "p \<noteq> d" and "p \<notin> set rs" and "d \<notin> set rs"
    and "footprint h p = insert p (insert d (set rs))"
proof -
  from assms obtain d lf st rs fs where o: "objAt h p = Some (CacheObj d lf st)"
    and od: "objAt h d = Some (ArrayObj rs)" and t: "those (map (flightAt h) rs) = Some fs"
    and c: "c = \<lparr>data = fs, lastFetched = lf, isStale = st\<rparr>"
    by (auto simp add: cacheAt_def arrayAt_def split: option.splits obj.splits)
  have fl: "\<exists>f. flightAt h r = Some f" if "r \<in> set rs" for r
    using those_map_Some_mem [OF t that] .
  have b: "\<forall>r\<in>set rs. r < length h" using fl flightAt_less by blast
  have pd: "p \<noteq> d" using o od by auto
  have prs: "p \<notin> set rs"
  proof
    assume "p \<in> set rs"
    then obtain f where "flightAt h p = Some f" using fl by blast
    with o show False by (simp add: flightAt_def)
  qed
  have drs: "d \<notin> set rs"
  proof
    assume "d \<in> set rs"
    then obtain f where "flightAt h d = Some f" using fl by blast
    with od show False by (simp add: flightAt_def)
  qed
  have fp: "footprint h p = insert p (insert d (set rs))"
    using o od by (simp add: footprint_def)
  show ?thesis
    using that [of d rs] o od t c b pd prs drs fp objAt_Some_less [OF o] objAt_Some_less [OF od]
    by simp
qed

lemma footprint_bounded: "cacheAt h p = Some c \<Longrightarrow> footprint h p \<subseteq> {..<length h}"
  by (erule cacheAt_parts) auto

text \<open>Rebinding the fields of the cache object to an array already in the store.\<close>

lemma cacheAt_rebind:
  assumes "arrayAt h d = Some fs" and "root < length h" and "flightAt h root = None"
    and "root \<noteq> d"
  shows "cacheAt (h[root := CacheObj d lf st]) root = Some \<lparr>data = fs, lastFetched = lf, isStale = st\<rparr>"
proof -
  from assms(1) obtain rs where od: "objAt h d = Some (ArrayObj rs)"
    and t: "those (map (flightAt h) rs) = Some fs"
    by (auto simp add: arrayAt_def split: option.splits obj.splits)
  let ?h = "h[root := CacheObj d lf st]"
  have o': "objAt ?h root = Some (CacheObj d lf st)" using assms(2) by (simp add: objAt_def)
  have od': "objAt ?h d = Some (ArrayObj rs)" using od assms(4) by (simp add: objAt_update)
  have t': "those (map (flightAt ?h) rs) = Some fs"
    using t
  proof (rule those_map_cong)
    fix x y assume y: "flightAt h x = Some y"
    with assms(3) have "root \<noteq> x" by auto
    with y show "flightAt ?h x = Some y" by (simp add: flightAt_update)
  qed
  from o' od' t' show ?thesis by (simp add: cacheAt_def arrayAt_def)
qed

text \<open>
  The store in which \<open>getCachedFlights\<close> takes its copy: the cache object there has the
  value the value-level function computes.
\<close>

lemma getCachedFlights_h_refines:
  assumes wf: "cacheAt h root = Some c"
    and run: "getCachedFlights_h e forceRefresh root h = (h', Inr p)"
  shows "\<exists>hm ob ext1. hm = (h @ ext1)[root := ob]
          \<and> cacheAt hm root = Some (fst (getCachedFlights e forceRefresh c))
          \<and> deepCopy root hm = (h', Inr p)"
proof -
  from wf obtain d rs where o: "objAt h root = Some (CacheObj d (lastFetched c) (isStale c))"
    and od: "objAt h d = Some (ArrayObj rs)"
    and t: "those (map (flightAt h) rs) = Some (data c)"
    and lt: "root < length h" and rd: "root \<noteq> d"
    by (rule cacheAt_parts)
  have ar: "arrayAt h d = Some (data c)" using od t by (simp add: arrayAt_def)
  have nf: "flightAt h root = None" using o by (simp add: flightAt_def)
  have len: "length rs = length (data c)"
    using t by (rule those_map_length)
  have same: "h[root := CacheObj d (lastFetched c) (isStale c)] = h"
    using o lt by (simp add: objAt_def list_update_same_conv)
  show ?thesis
  proof (cases "forceRefresh \<or> dateNow e - lastFetched c > CACHE_LIFETIME \<or> isStale c")
    case False
    then have dc: "deepCopy root h = (h', Inr p)"
      using run o by (simp add: getCachedFlights_h_def Let_def)
    have v: "fst (getCachedFlights e forceRefresh c) = c"
      using False by (simp add: getCachedFlights_def Let_def)
    show ?thesis
      using dc v wf same
      by (intro exI [of _ h] exI [of _ "CacheObj d (lastFetched c) (isStale c)"] exI [of _ "[]"]) simp
  next
    case att: True
    show ?thesis
    proof (cases "scrapeFlights e")
      case (Inr fl)
      define ext1 where "ext1 = map FlightObj fl @ [ArrayObj [length h..<length h + length fl]]"
      define a where "a = length h + length fl"
      define hm where "hm = (h @ ext1)[root := CacheObj a (dateNow e) False]"
      have al: "allocArray fl h = (a, h @ ext1)" by (simp add: allocArray_def ext1_def a_def)
      have dc: "deepCopy root hm = (h', Inr p)"
        using run o att Inr al by (simp add: getCachedFlights_h_def Let_def hm_def)
      have ara: "arrayAt (h @ ext1) a = Some fl"
        using allocArray_read [OF al] by blast
      have nf': "flightAt (h @ ext1) root = None"
        using o lt by (simp add: flightAt_def objAt_append)
      have "cacheAt hm root = Some \<lparr>data = fl, lastFetched = dateNow e, isStale = False\<rparr>"
        unfolding hm_def using ara _ nf'
        by (rule cacheAt_rebind) (use lt in \<open>simp_all add: a_def\<close>)
      moreover have "fst (getCachedFlights e forceRefresh c)
                       = \<lparr>data = fl, lastFetched = dateNow e, isStale = False\<rparr>"
        using att Inr by (simp add: getCachedFlights_def Let_def)
      ultimately show ?thesis
        using dc hm_def by auto
    next
      case (Inl err)
      have keep: "length rs > 0 \<and> \<not> forceRefresh"
        using run o od att Inl by (simp add: getCachedFlights_h_def Let_def split: if_splits)
      define hm where "hm = h[root := CacheObj d (lastFetched c) True]"
      have dc: "deepCopy root hm = (h', Inr p)"
        using run o od att Inl keep by (simp add: getCachedFlights_h_def Let_def hm_def)
      have "cacheAt hm root = Some \<lparr>data = data c, lastFetched = lastFetched c, isStale = True\<rparr>"
        unfolding hm_def using ar lt nf rd by (rule cacheAt_rebind)
      moreover have "fst (getCachedFlights e forceRefresh c) = c\<lparr>isStale := True\<rparr>"
        using att Inl keep len by (simp add: getCachedFlights_def Let_def)
      ultimately show ?thesis
        using dc hm_def
        by (intro exI [of _ hm] exI [of _ "CacheObj d (lastFetched c) True"] exI [of _ "[]"]) simp
    qed
  qed
qed


lemma deepCopy_extends: "deepCopy root h = (h', r) \<Longrightarrow> \<exists>ext. h' = h @ ext"
  by (auto simp add: deepCopy_def allocArray_def split: option.splits)

lemma getCachedFlights_h_extends:
  assumes lt: "root < length h"
    and run: "getCachedFlights_h e forceRefresh root h = (h', r)"
  shows "\<exists>ob ext. h' = h[root := ob] @ ext"
proof -
  have keep: "\<exists>ob ext. h = h[root := ob] @ ext"
    by (intro exI [of _ "h ! root"] exI [of _ "[]"]) simp
  have copy: "\<exists>ob ext. h2 = h[root := ob] @ ext"
    if "deepCopy root ((h @ ext1)[root := ob1]) = (h2, r2)" for h2 r2 ext1 ob1
  proof -
    from deepCopy_extends [OF that] obtain ext where "h2 = (h @ ext1)[root := ob1] @ ext" ..
    with lt have "h2 = h[root := ob1] @ (ext1 @ ext)" by (simp add: list_update_append1)
    then show ?thesis by blast
  qed
  have copy0: "\<exists>ob ext. h2 = h[root := ob] @ ext" if "deepCopy root h = (h2, r2)" for h2 r2
    using copy [of "[]" "h ! root" h2 r2] that by simp
  have copy1: "\<exists>ob ext. h2 = h[root := ob] @ ext" if "deepCopy root (h[root := ob1]) = (h2, r2)"
    for h2 r2 ob1
    using copy [of "[]" ob1 h2 r2] that by simp
  show ?thesis
  proof (cases "objAt h root")
    case None
    with run keep show ?thesis by (simp add: getCachedFlights_h_def)
  next
    case (Some ob)
    show ?thesis
    proof (cases ob)
      case (CacheObj d lf st)
      show ?thesis
      proof (cases "forceRefresh \<or> dateNow e - lf > CACHE_LIFETIME \<or> st")
        case False
        with run Some CacheObj have "deepCopy root h = (h', r)"
          by (simp add: getCachedFlights_h_def Let_def)
        then show ?thesis by (rule copy0)
      next
        case att: True
        show ?thesis
        proof (cases "scrapeFlights e")
          case (Inr fl)
          with run Some CacheObj att
          have "deepCopy root ((h @ map FlightObj fl @ [ArrayObj [length h..<length h + length fl]])
                  [root := CacheObj (length h + length fl) (dateNow e) False]) = (h', r)"
            by (simp add: getCachedFlights_h_def Let_def allocArray_def)
          then show ?thesis by (rule copy)
        next
          case (Inl err)
          with run Some CacheObj att
          have "h' = h \<or> deepCopy root (h[root := CacheObj d lf True]) = (h', r)"
            by (auto simp add: getCachedFlights_h_def Let_def
                split: option.splits obj.splits if_splits)
          then show ?thesis using keep copy1 by blast
        qed
      qed
    next
      case (FlightObj f)
      with run Some keep show ?thesis by (simp add: getCachedFlights_h_def)
    next
      case (ArrayObj rs)
      with run Some keep show ?thesis by (simp add: getCachedFlights_h_def)
    qed
  qed
qed

lemma cacheAt_survives:
  assumes "cacheAt h q = Some c" and "a \<notin> footprint h q"
  shows "cacheAt (h[a := ob] @ ext) q = Some c"
  using cacheAt_frame [OF assms, of ob] by (simp add: cacheAt_append)

lemma sortData_h_writes:
  "sortData_h p h = h \<or> (\<exists>a ob. a \<in> footprint h p \<and> sortData_h p h = h[a := ob])"
  by (auto simp add: sortData_h_def footprint_def split: option.splits obj.splits)


text \<open>
  C9. When \<open>getCachedFlights\<close> returns a snapshot, the snapshot and the cache have the
  same value (the one the value-level function computes) and are made of disjoint sets of
  objects. Hence a later write to any object outside the snapshot, those of the cache
  included, leaves the value of the snapshot as it is, and a write to any object outside
  the cache, those of the snapshot included, leaves the value of the cache as it is; in
  particular the handler's in-place sort of the snapshot's array does not touch the
  cache, and a later call of \<open>getCachedFlights\<close>, whatever it fetches, does not touch
  the snapshot.
\<close>

theorem snapshot_isolated:
  assumes wf: "cacheAt h root = Some c"
    and run: "getCachedFlights_h e forceRefresh root h = (h', Inr p)"
  shows "cacheAt h' p = Some (fst (getCachedFlights e forceRefresh c))
       \<and> cacheAt h' root = Some (fst (getCachedFlights e forceRefresh c))
       \<and> footprint h' p \<inter> footprint h' root = {}
       \<and> (\<forall>a ob. a \<notin> footprint h' p \<longrightarrow> cacheAt (h'[a := ob]) p = cacheAt h' p)
       \<and> (\<forall>a ob. a \<notin> footprint h' root \<longrightarrow> cacheAt (h'[a := ob]) root = cacheAt h' root)
       \<and> cacheAt (sortData_h p h') root = cacheAt h' root
       \<and> (\<forall>e2 force2 h2 r2. getCachedFlights_h e2 force2 root h' = (h2, r2) \<longrightarrow>
             cacheAt h2 p = cacheAt h' p)"
proof -
  define c' where "c' = fst (getCachedFlights e forceRefresh c)"
  from getCachedFlights_h_refines [OF wf run]
  obtain hm where cm: "cacheAt hm root = Some c'" and dc: "deepCopy root hm = (h', Inr p)"
    unfolding c'_def by blast
  from deepCopy_fresh [OF cm dc]
  obtain ext where h': "h' = hm @ ext" and p: "p = length h' - 1"
    and cp: "cacheAt h' p = Some c'"
    and fresh: "footprint h' p \<inter> {..<length hm} = {}"
    by auto
  have cr: "cacheAt h' root = Some c'"
    unfolding h' using cm by (rule cacheAt_append)
  have "footprint h' root = footprint hm root"
    unfolding h' using cm by (rule footprint_append)
  with footprint_bounded [OF cm] have fr: "footprint h' root \<subseteq> {..<length hm}" by simp
  with fresh have disj: "footprint h' p \<inter> footprint h' root = {}" by blast
  have rootin: "root \<in> footprint h' root"
    using cr by (rule cacheAt_parts) simp
  with disj have rootout: "root \<notin> footprint h' p" by blast
  have lt: "root < length h'"
    using cr by (rule cacheAt_parts)
  have f1: "\<forall>a ob. a \<notin> footprint h' p \<longrightarrow> cacheAt (h'[a := ob]) p = cacheAt h' p"
    using cacheAt_frame [OF cp] cp by simp
  have f2: "\<forall>a ob. a \<notin> footprint h' root \<longrightarrow> cacheAt (h'[a := ob]) root = cacheAt h' root"
    using cacheAt_frame [OF cr] cr by simp
  have f3: "cacheAt (sortData_h p h') root = cacheAt h' root"
    using sortData_h_writes [of p h'] f2 disj by auto
  have f4: "cacheAt h2 p = cacheAt h' p"
    if "getCachedFlights_h e2 force2 root h' = (h2, r2)" for e2 force2 h2 r2
  proof -
    from getCachedFlights_h_extends [OF lt that]
    obtain ob ext2 where "h2 = h'[root := ob] @ ext2" by blast
    then show ?thesis
      using cacheAt_survives [OF cp rootout] cp by simp
  qed
  from cp cr disj f1 f2 f3 f4 show ?thesis
    unfolding c'_def by blast
qed

lemma storeOld_cache: "cacheAt storeOld 3 = Some cacheOld"
  by (simp add: storeOld_def cacheAt_def arrayAt_def flightAt_def objAt_def cacheOld_def)

lemma envDown_now: "dateNow envDown = 1700000000000"
  by (simp add: envDown_def)

lemma storeOld_read:
  "getCachedFlights_h envDown False 3 storeOld =
     ([FlightObj flightA, FlightObj flightB, ArrayObj [0, 1], CacheObj 2 1699996400000 True,
       FlightObj flightA, FlightObj flightB, ArrayObj [4, 5], CacheObj 6 1699996400000 True],
      Inr 7)"
  by (simp add: getCachedFlights_h_def storeOld_def objAt_def envDown_fails Let_def
      envDown_now CACHE_LIFETIME_def deepCopy_def cacheAt_def arrayAt_def flightAt_def
      allocArray_def upt_conv_Cons)


theorem snapshot_isolated_witness:
  "cacheAt storeOld 3 = Some cacheOld
   \<and> getCachedFlights_h envDown False 3 storeOld =
       ([FlightObj flightA, FlightObj flightB, ArrayObj [0, 1], CacheObj 2 1699996400000 True,
         FlightObj flightA, FlightObj flightB, ArrayObj [4, 5], CacheObj 6 1699996400000 True],
        Inr 7)
   \<and> cacheAt (fst (getCachedFlights_h envDown False 3 storeOld)) 7 = Some (cacheOld\<lparr>isStale := True\<rparr>)
   \<and> cacheAt (fst (getCachedFlights_h envDown False 3 storeOld)) 3 = Some (cacheOld\<lparr>isStale := True\<rparr>)
   \<and> footprint (fst (getCachedFlights_h envDown False 3 storeOld)) 7 = {4, 5, 6, 7}
   \<and> footprint (fst (getCachedFlights_h envDown False 3 storeOld)) 3 = {0, 1, 2, 3}
   \<and> cacheAt ((fst (getCachedFlights_h envDown False 3 storeOld))[0 := FlightObj flightB]) 7
       = Some (cacheOld\<lparr>isStale := True\<rparr>)
   \<and> cacheAt (sortData_h 7 (fst (getCachedFlights_h envDown False 3 storeOld))) 3
       = Some (cacheOld\<lparr>isStale := True\<rparr>)
   \<and> cacheAt (fst (getCachedFlights_h envUp True 3 (fst (getCachedFlights_h envDown False 3 storeOld)))) 7
       = Some (cacheOld\<lparr>isStale := True\<rparr>)"
proof -
  define hN where "hN = fst (getCachedFlights_h envDown False 3 storeOld)"
  have run: "getCachedFlights_h envDown False 3 storeOld = (hN, Inr 7)"
    by (simp add: hN_def storeOld_read)
  have v: "fst (getCachedFlights envDown False cacheOld) = cacheOld\<lparr>isStale := True\<rparr>"
    using envDown_fails
    by (simp add: getCachedFlights_def Let_def cacheOld_def envDown_now CACHE_LIFETIME_def)
  note iso = snapshot_isolated [OF storeOld_cache run, unfolded v]
  have fp: "footprint hN 7 = {4, 5, 6, 7}" "footprint hN 3 = {0, 1, 2, 3}"
    by (auto simp add: hN_def storeOld_read footprint_def objAt_def)
  from iso have a: "cacheAt hN 7 = Some (cacheOld\<lparr>isStale := True\<rparr>)" by blast
  from iso have b: "cacheAt hN 3 = Some (cacheOld\<lparr>isStale := True\<rparr>)" by blast
  from iso have "\<forall>a ob. a \<notin> footprint hN 7 \<longrightarrow> cacheAt (hN[a := ob]) 7 = cacheAt hN 7" by blast
  then have "0 \<notin> footprint hN 7 \<longrightarrow> cacheAt (hN[0 := FlightObj flightB]) 7 = cacheAt hN 7" by blast
  with fp a have c: "cacheAt (hN[0 := FlightObj flightB]) 7 = Some (cacheOld\<lparr>isStale := True\<rparr>)"
    by simp
  from iso have "cacheAt (sortData_h 7 hN) 3 = cacheAt hN 3" by blast
  with b have d: "cacheAt (sortData_h 7 hN) 3 = Some (cacheOld\<lparr>isStale := True\<rparr>)" by simp
  from iso have "\<forall>e2 force2 h2 r2. getCachedFlights_h e2 force2 3 hN = (h2, r2) \<longrightarrow>
             cacheAt h2 7 = cacheAt hN 7" by blast
  moreover obtain h2 r2 where later: "getCachedFlights_h envUp True 3 hN = (h2, r2)"
    by (cases "getCachedFlights_h envUp True 3 hN")
  ultimately have "cacheAt h2 7 = cacheAt hN 7"
    by blast
  with later have "cacheAt (fst (getCachedFlights_h envUp True 3 hN)) 7 = cacheAt hN 7"
    by simp
  with a have e: "cacheAt (fst (getCachedFlights_h envUp True 3 hN)) 7 = Some (cacheOld\<lparr>isStale := True\<rparr>)"
    by simp
  show ?thesis
    unfolding hN_def [symmetric]
    using a b c d e fp storeOld_cache storeOld_read by blast
qed

end
